theory Spec2Isabelle
  imports Main "HOL-Library.Sublist" "HOL-Library.Multiset"
begin

section \<open>Strings\<close>

text \<open>
  A JavaScript string is a sequence of UTF-16 code units. The backup patterns contain
  Japanese characters, so a code unit is a natural number below 65536 here and not a
  byte. ASCII literals are written with \<open>str\<close>.
\<close>

type_synonym jschar = nat
type_synonym jsstring = "jschar list"

definition str :: "string \<Rightarrow> jsstring" where
  "str s = map of_char s"

text \<open>The seven code units of the Japanese backup marker (U+306E U+30D0 U+30C3 U+30AF
  U+30A2 U+30C3 U+30D7), as they stand in \<open>utils.ts\<close>.\<close>

definition noBackup :: jsstring where
  "noBackup = [0x306E, 0x30D0, 0x30C3, 0x30AF, 0x30A2, 0x30C3, 0x30D7]"

section \<open>Regular expressions\<close>

text \<open>
  The regular expressions of \<open>utils.ts\<close> use literal characters, the classes \<open>\d\<close>,
  \<open>\s\<close> and \<open>.\<close>, grouping, and the quantifiers \<open>?\<close>, \<open>*\<close> and \<open>+\<close>; no flag is set.
  \<open>run r s\<close> lists the remainders of \<open>s\<close> after every way of matching \<open>r\<close> at the start
  of \<open>s\<close>, which is what a backtracking matcher explores. An iteration of \<open>*\<close> that
  consumes nothing is dropped, as ECMAScript does.
\<close>

datatype cclass = Unit jschar | Digit | Space | Dot

datatype re = Eps | Atom cclass | Seq re re | Opt re | Star re

abbreviation Plus :: "re \<Rightarrow> re" where
  "Plus r \<equiv> Seq r (Star r)"

abbreviation ch :: "char \<Rightarrow> re" where
  "ch c \<equiv> Atom (Unit (of_char c))"

fun accepts :: "cclass \<Rightarrow> jschar \<Rightarrow> bool" where
  "accepts (Unit c) x = (x = c)"
| "accepts Digit x = (0x30 \<le> x \<and> x \<le> 0x39)"
| "accepts Space x =
     (x \<in> set [0x09, 0x0A, 0x0B, 0x0C, 0x0D, 0x20, 0xA0, 0x1680, 0x2028, 0x2029,
                0x202F, 0x205F, 0x3000, 0xFEFF]
      \<or> (0x2000 \<le> x \<and> x \<le> 0x200A))"
| "accepts Dot x = (x \<notin> set [0x0A, 0x0D, 0x2028, 0x2029])"

function run :: "re \<Rightarrow> jsstring \<Rightarrow> jsstring list" where
  "run Eps s = [s]"
| "run (Atom c) s = (case s of [] \<Rightarrow> [] | x # xs \<Rightarrow> if accepts c x then [xs] else [])"
| "run (Seq a b) s = concat (map (run b) (run a s))"
| "run (Opt a) s = run a s @ [s]"
| "run (Star a) s =
     concat (map (run (Star a)) (filter (\<lambda>t. length t < length s) (run a s))) @ [s]"
  by pat_completeness auto
termination
  by (relation "measure size <*lex*> measure length") auto

definition lit :: "jsstring \<Rightarrow> re" where
  "lit s = foldr (\<lambda>c r. Seq (Atom (Unit c)) r) s Eps"

text \<open>\<open>/^r$/.test(s)\<close>: the whole of \<open>s\<close> matches.\<close>

definition test_whole :: "re \<Rightarrow> jsstring \<Rightarrow> bool" where
  "test_whole r s = ([] \<in> set (run r s))"

text \<open>\<open>/r/.test(s)\<close> and the truth value of \<open>s.match(/r/)\<close>: \<open>r\<close> is tried at the
  start of \<open>s\<close>, then one position further, up to the end of \<open>s\<close>.\<close>

fun test_search :: "re \<Rightarrow> jsstring \<Rightarrow> bool" where
  "test_search r [] = (run r [] \<noteq> [])"
| "test_search r (x # xs) = (run r (x # xs) \<noteq> [] \<or> test_search r xs)"

section \<open>Paths\<close>

text \<open>
  Node's \<open>Path.basename\<close> and \<open>Path.dirname\<close>, POSIX flavour: the separators at the end
  of the path are skipped, then the last component is kept (\<open>basename\<close>) or removed
  (\<open>dirname\<close>). On Windows Node takes the backslash as a separator too; the paths used
  below are written with the slash.
\<close>

definition sep :: jschar where
  "sep = 0x2F"

definition basename :: "jsstring \<Rightarrow> jsstring" where
  "basename p = rev (takeWhile (\<lambda>c. c \<noteq> sep) (dropWhile (\<lambda>c. c = sep) (rev p)))"

text \<open>\<open>String.prototype.slice(b, e)\<close>: a negative index counts from the end.\<close>

definition slice :: "jsstring \<Rightarrow> int \<Rightarrow> int \<Rightarrow> jsstring" where
  "slice s b e =
     (let n = int (length s);
          lo = (if b < 0 then max 0 (n + b) else min b n);
          hi = (if e < 0 then max 0 (n + e) else min e n)
      in take (nat (hi - lo)) (drop (nat lo) s))"

text \<open>
  \<open>Path.basename(path, ext)\<close> is Node's loop, variable by variable: the path is read from
  its end, \<open>start\<close> and \<open>endIdx\<close> bound the component, \<open>extIdx\<close> is the index in the
  extension of the character still to match. \<open>match_ext\<close> is the body of the loop for a
  character that is not a separator; on a separator after the component the loop
  breaks. An extension that is empty or longer than the path is not looked for.
\<close>

record scan =
  start :: int
  endIdx :: int
  matchedSlash :: bool
  extIdx :: int
  firstNonSlashEnd :: int

definition match_ext :: "jsstring \<Rightarrow> nat \<Rightarrow> jschar \<Rightarrow> scan \<Rightarrow> scan" where
  "match_ext ext i code s =
     (let s1 = (if firstNonSlashEnd s = - 1
                then s\<lparr>matchedSlash := False, firstNonSlashEnd := int i + 1\<rparr> else s)
      in if extIdx s1 \<ge> 0 then
           (if code = ext ! nat (extIdx s1) then
              (if extIdx s1 - 1 = - 1
               then s1\<lparr>extIdx := extIdx s1 - 1, endIdx := int i\<rparr>
               else s1\<lparr>extIdx := extIdx s1 - 1\<rparr>)
            else s1\<lparr>extIdx := - 1, endIdx := firstNonSlashEnd s1\<rparr>)
         else s1)"

fun basename_loop :: "jsstring \<Rightarrow> jsstring \<Rightarrow> nat \<Rightarrow> scan \<Rightarrow> scan" where
  "basename_loop path ext 0 s = s"
| "basename_loop path ext (Suc i) s =
     (if path ! i = sep then
        (if \<not> matchedSlash s then s\<lparr>start := int i + 1\<rparr>
         else basename_loop path ext i s)
      else basename_loop path ext i (match_ext ext i (path ! i) s))"

definition basename_ext :: "jsstring \<Rightarrow> jsstring \<Rightarrow> jsstring" where
  "basename_ext path ext =
     (if ext \<noteq> [] \<and> length ext \<le> length path then
        if ext = path then []
        else
          let s = basename_loop path ext (length path)
                    \<lparr>start = 0, endIdx = - 1, matchedSlash = True,
                     extIdx = int (length ext) - 1, firstNonSlashEnd = - 1\<rparr>;
              e = (if start s = endIdx s then firstNonSlashEnd s
                   else if endIdx s = - 1 then int (length path)
                   else endIdx s)
          in slice path (start s) e
      else basename path)"

text \<open>\<open>Path.dirname(p)\<close>: \<open>r\<close> is the path from index 1 up to the separator that ends
  the directory part, reversed, so its length is the index of that separator.\<close>

definition dirname :: "jsstring \<Rightarrow> jsstring" where
  "dirname p =
     (if p = [] then str ''.''
      else let hasRoot = (hd p = sep);
               r = dropWhile (\<lambda>c. c \<noteq> sep) (dropWhile (\<lambda>c. c = sep) (rev (tl p)))
           in if r = [] then (if hasRoot then [sep] else str ''.'')
              else if hasRoot \<and> length r = 1 then [sep, sep]
              else take (length r) p)"

section \<open>BackupUtils.isBackupFile\<close>

text \<open>\<open>/^Backup\s+(\(\d+\)\s+)?of.*\.ewp$/\<close>\<close>

definition isBackupEng :: re where
  "isBackupEng =
     Seq (lit (str ''Backup'')) (Seq (Plus (Atom Space))
       (Seq (Opt (Seq (ch CHR ''('') (Seq (Plus (Atom Digit)) (Seq (ch CHR '')'') (Plus (Atom Space))))))
         (Seq (lit (str ''of'')) (Seq (Star (Atom Dot)) (lit (str ''.ewp''))))))"

text \<open>\<open>/^.*\s+<noBackup>(\s+\(\d+\))?\.ewp$/\<close>\<close>

definition isBackupJpn :: re where
  "isBackupJpn =
     Seq (Star (Atom Dot)) (Seq (Plus (Atom Space)) (Seq (lit noBackup)
       (Seq (Opt (Seq (Plus (Atom Space)) (Seq (ch CHR ''('') (Seq (Plus (Atom Digit)) (ch CHR '')'')))))
         (lit (str ''.ewp'')))))"

definition isBackupFile :: "jsstring \<Rightarrow> bool" where
  "isBackupFile project =
     (test_whole isBackupEng (basename project) \<or> test_whole isBackupJpn (basename project))"

section \<open>RegexUtils.escape\<close>

text \<open>The character class of \<open>RegexUtils.escape\<close>, \<open>[.*+?^${}()|[\]\\]\<close>: fourteen
  characters, the last of them the backslash.\<close>

definition backslash :: jschar where
  "backslash = 0x5C"

definition escapedChars :: "jschar list" where
  "escapedChars = map of_char ''.*+?^${}()|[]'' @ [backslash]"

text \<open>\<open>str.replace(/[.*+?^${}()|[\]\\]/g, "\\$&")\<close>: every character of the class is
  replaced by a backslash followed by itself, every other character is kept.\<close>

definition escape :: "jsstring \<Rightarrow> jsstring" where
  "escape s = concat (map (\<lambda>c. if c \<in> set escapedChars then [backslash, c] else [c]) s)"

text \<open>
  What \<open>new RegExp(p)\<close> builds from a pattern made of ordinary characters and escaped
  syntax characters. ECMAScript's SyntaxCharacter is one of \<open>^ $ \ . * + ? ( ) [ ] { } |\<close>;
  a backslash before one of them is an identity escape and stands for that character,
  and any other character but these stands for itself. A pattern with a syntax character
  that is not escaped, or with another escape, is outside this fragment: \<open>None\<close>.
\<close>

definition syntaxCharacter :: "jschar \<Rightarrow> bool" where
  "syntaxCharacter c =
     (c \<in> set (map of_char ''^$'' @ [backslash] @ map of_char ''.*+?()[]{}|''))"

fun pattern :: "jsstring \<Rightarrow> re option" where
  "pattern [] = Some Eps"
| "pattern (c # cs) =
     (if c = backslash then
        (case cs of
           [] \<Rightarrow> None
         | d # ds \<Rightarrow>
             if syntaxCharacter d then map_option (Seq (Atom (Unit d))) (pattern ds) else None)
      else if syntaxCharacter c then None
      else map_option (Seq (Atom (Unit c))) (pattern cs))"

section \<open>ListUtils.mergeUnique\<close>

text \<open>\<open>Map.prototype.set\<close> on the entries of a JavaScript \<open>Map\<close>, kept in insertion order:
  the value of a key that is present is replaced where it stands, a new key is appended.\<close>

fun map_set :: "'k \<Rightarrow> 'v \<Rightarrow> ('k \<times> 'v) list \<Rightarrow> ('k \<times> 'v) list" where
  "map_set k v [] = [(k, v)]"
| "map_set k v (e # es) = (if fst e = k then (k, v) # es else e # map_set k v es)"

text \<open>The two nested \<open>forEach\<close> loops, then \<open>Array.from(result.values())\<close>.\<close>

definition mergeUnique :: "('a \<Rightarrow> jsstring) \<Rightarrow> 'a list list \<Rightarrow> 'a list" where
  "mergeUnique getKey lsts =
     map snd
       (foldl (\<lambda>result list. foldl (\<lambda>result item. map_set (getKey item) item result) result list)
          [] lsts)"

text \<open>For the statement: the keys of a list in the order of their first occurrence, and
  the last element of a list that has a given key.\<close>

definition first_keys :: "'k list \<Rightarrow> 'k list" where
  "first_keys ks = rev (remdups (rev ks))"

definition last_with :: "('a \<Rightarrow> 'k) \<Rightarrow> 'a list \<Rightarrow> 'k \<Rightarrow> 'a" where
  "last_with getKey xs k = last (filter (\<lambda>x. getKey x = k) xs)"

section \<open>BackupUtils.doWithBackupCheck\<close>

datatype error = ENOENT | EPERM | SyntaxError | TaskFailure jsstring | ParseError jsstring

text \<open>
  The file system as the guard sees it: the entries of each directory that exists, and
  the entries that cannot be removed. \<open>readdir\<close> fails on a directory that does not
  exist; \<open>rm\<close> fails on an entry that is absent or cannot be removed and changes nothing
  then. \<open>rm f d file\<close> is \<open>FsPromises.rm(Path.join(d, file))\<close>.
\<close>

record fs =
  dirs :: "jsstring \<Rightarrow> jsstring list option"
  undeletable :: "(jsstring \<times> jsstring) list"

definition readdir :: "fs \<Rightarrow> jsstring \<Rightarrow> error + jsstring list" where
  "readdir f d = (case dirs f d of None \<Rightarrow> Inl ENOENT | Some files \<Rightarrow> Inr files)"

definition rm :: "fs \<Rightarrow> jsstring \<Rightarrow> jsstring \<Rightarrow> (error + unit) \<times> fs" where
  "rm f d file =
     (case dirs f d of
        None \<Rightarrow> (Inl ENOENT, f)
      | Some files \<Rightarrow>
          if file \<notin> set files then (Inl ENOENT, f)
          else if (d, file) \<in> set (undeletable f) then (Inl EPERM, f)
          else (Inr (), f\<lparr>dirs := (dirs f)(d \<mapsto> removeAll file files)\<rparr>))"

text \<open>\<open>Backup\s+(\(\d+\))?\s*of N\.ew\<close>, where \<open>n\<close> is the expression of the escaped
  project name \<open>N\<close>.\<close>

definition backupRegexEng :: "re \<Rightarrow> re" where
  "backupRegexEng n =
     Seq (lit (str ''Backup'')) (Seq (Plus (Atom Space))
       (Seq (Opt (Seq (ch CHR ''('') (Seq (Plus (Atom Digit)) (ch CHR '')''))))
         (Seq (Star (Atom Space)) (Seq (lit (str ''of '')) (Seq n (lit (str ''.ew'')))))))"

text \<open>\<open>N\s+<noBackup>(\s+\(\d+\))?\.ew\<close>\<close>

definition backupRegexJpn :: "re \<Rightarrow> re" where
  "backupRegexJpn n =
     Seq n (Seq (Plus (Atom Space)) (Seq (lit noBackup)
       (Seq (Opt (Seq (Plus (Atom Space)) (Seq (ch CHR ''('') (Seq (Plus (Atom Digit)) (ch CHR '')'')))))
         (lit (str ''.ew'')))))"

text \<open>The filter of both snapshots: \<open>file.match(backupRegexEng) || file.match(backupRegexJpn)\<close>.\<close>

definition matchesBackup :: "re \<Rightarrow> jsstring \<Rightarrow> bool" where
  "matchesBackup n file =
     (test_search (backupRegexEng n) file \<or> test_search (backupRegexJpn n) file)"

text \<open>
  What completes, in the order in which it completes: a reading of a directory with its
  result, the call of the task, the settling of the promise that the guard returned to
  its caller, a removal with its result.
\<close>

datatype step =
    Readdir jsstring "error + jsstring list"
  | TaskCalled
  | Settles
  | Rm jsstring jsstring "error + unit"

text \<open>\<open>Promise.allSettled(newBackupFiles.map(file => FsPromises.rm(...)))\<close>: every removal
  is tried, whatever the others give.\<close>

fun rm_all :: "fs \<Rightarrow> jsstring \<Rightarrow> jsstring list \<Rightarrow> fs \<times> step list" where
  "rm_all f d [] = (f, [])"
| "rm_all f d (file # files) =
     (let (r, f1) = rm f d file;
          (f2, removals) = rm_all f1 d files
      in (f2, Rm d file r # removals))"

text \<open>The callback of \<open>taskPromise.finally\<close>. \<open>Promise.allSettled\<close> fails for no removal.\<close>

definition cleanup ::
  "jsstring \<Rightarrow> re \<Rightarrow> jsstring list \<Rightarrow> fs \<Rightarrow> (error + unit) \<times> fs \<times> step list" where
  "cleanup projectDir n originalBackupFiles f =
     (case readdir f projectDir of
        Inl e \<Rightarrow> (Inl e, f, [Readdir projectDir (Inl e)])
      | Inr files \<Rightarrow>
          let backupFilesAfterExit = filter (matchesBackup n) files
          in if length originalBackupFiles \<noteq> length backupFilesAfterExit then
               let newBackupFiles =
                     filter (\<lambda>backupFile. backupFile \<notin> set originalBackupFiles) backupFilesAfterExit;
                   (f2, removals) = rm_all f projectDir newBackupFiles
               in (Inr (), f2, Readdir projectDir (Inr files) # removals)
             else (Inr (), f, [Readdir projectDir (Inr files)]))"

text \<open>
  A call of the task changes the file system and either throws before it returns a
  promise or returns a promise that settles with a value or a failure. What the caller
  of the task sees of it is \<open>task_outcome\<close>.
\<close>

datatype 'a call = Thrown error | Settled "error + 'a"

fun task_outcome :: "'a call \<Rightarrow> error + 'a" where
  "task_outcome (Thrown e) = Inl e"
| "task_outcome (Settled r) = r"

text \<open>
  The outcome of the guard: what the promise it returns settles with; what the promise
  of \<open>finally\<close>, which nobody holds, is rejected with, if it is; the file system at the
  end; and the steps in the order of their completion. The promise returned is the
  promise of the task (\<open>return taskPromise\<close>), so it settles when the task does, before
  the reading of the directory that the callback of \<open>finally\<close> awaits. A task that throws
  gets no callback. The two regular expressions are the templates of the source written
  out, with the expression of the escaped name in its place; \<open>new RegExp\<close> throws on a
  pattern it cannot read.
\<close>

record 'a outcome =
  returned :: "error + 'a"
  detached :: "error option"
  final :: fs
  steps :: "step list"

definition doWithBackupCheck ::
  "jsstring \<Rightarrow> (fs \<Rightarrow> 'a call \<times> fs) \<Rightarrow> fs \<Rightarrow> 'a outcome" where
  "doWithBackupCheck project task f =
     (let projectDir = dirname project;
          projectNameRegex = escape (basename_ext project (str ''.ewp''))
      in case pattern projectNameRegex of
           None \<Rightarrow> \<lparr>returned = Inl SyntaxError, detached = None, final = f, steps = [Settles]\<rparr>
         | Some n \<Rightarrow>
             (case readdir f projectDir of
                Inl e \<Rightarrow>
                  \<lparr>returned = Inl e, detached = None, final = f,
                   steps = [Readdir projectDir (Inl e), Settles]\<rparr>
              | Inr files \<Rightarrow>
                  let originalBackupFiles = filter (matchesBackup n) files
                  in (case task f of
                        (Thrown e, f1) \<Rightarrow>
                          \<lparr>returned = Inl e, detached = None, final = f1,
                           steps = [Readdir projectDir (Inr files), TaskCalled, Settles]\<rparr>
                      | (Settled result, f1) \<Rightarrow>
                          let (cleaned, f2, cleaning) = cleanup projectDir n originalBackupFiles f1
                          in \<lparr>returned = result,
                              detached =
                                (case cleaned of
                                   Inl e \<Rightarrow> Some e
                                 | Inr _ \<Rightarrow> (case result of Inl e \<Rightarrow> Some e | Inr _ \<Rightarrow> None)),
                              final = f2,
                              steps = [Readdir projectDir (Inr files), TaskCalled, Settles] @ cleaning\<rparr>)))"

text \<open>For the statements: the two backup-name patterns of a project, as a predicate on
  file names.\<close>

definition isBackupOf :: "jsstring \<Rightarrow> jsstring \<Rightarrow> bool" where
  "isBackupOf project file = matchesBackup (lit (basename_ext project (str ''.ewp''))) file"

section \<open>The file watchers of main.ts\<close>

text \<open>
  A workspace or project object. Objects are compared by identity (\<open>===\<close>) in the
  handlers, so each carries a reference, given when the object is constructed; the other
  fields are what the parser read from the file.
\<close>

record entity =
  ref :: nat
  path :: jsstring
  name :: jsstring
  content :: jsstring

datatype kind = WorkspaceFile | ProjectFile

text \<open>
  What a handler does to the world outside \<open>main.ts\<close>, in the order it does it:
  \<open>logger.error\<close> and \<open>showErrorMessage\<close> with the text "Could not parse workspace/project
  file '<file>': <e>", \<open>logger.debug\<close> with the text "Found <n> workspace(s)/project(s)
  in the VS Code workspace", the calls of \<open>set\<close> on the workspace and the project model,
  and the calls of \<open>setFallbackProjects\<close>.
\<close>

datatype event =
    LoggerError kind jsstring error
  | ShowErrorMessage kind jsstring error
  | LoggerDebug kind nat
  | WorkspaceSet "entity list"
  | ProjectSet "entity list"
  | SetFallbackProjects "entity list"

text \<open>
  The part of \<open>ExtensionState\<close> the handlers read and write: the list and the selection of
  the workspace model, the list of the project model, the fallback projects, the next
  free reference, and the events so far.
\<close>

record ext_state =
  workspaces :: "entity list"
  selected :: "entity option"
  projects :: "entity list"
  fallbackProjects :: "entity list"
  next_ref :: nat
  events :: "event list"

text \<open>
  The collaborators of the handlers whose code is in other files, as parameters: the
  parsers \<open>new EwwFile(file)\<close> and \<open>new EwpFile(file)\<close>, which throw on a file they cannot
  parse, \<open>Project.isIgnoredFile\<close>, \<open>String.prototype.localeCompare\<close>, \<open>JSON.stringify\<close>,
  \<open>OsUtils.pathsEqual\<close>, the awaited \<open>EwWorkspace.equal\<close>, \<open>Project.equal\<close>, and the awaited
  \<open>reloadProject\<close> and \<open>reloadWorkspace\<close> of \<open>ExtensionState\<close>.
\<close>

record deps =
  parseEww :: "jsstring \<Rightarrow> error + entity"
  parseEwp :: "jsstring \<Rightarrow> error + entity"
  isIgnoredFile :: "jsstring \<Rightarrow> bool"
  localeCompare :: "jsstring \<Rightarrow> jsstring \<Rightarrow> int"
  stringify :: "entity list \<Rightarrow> jsstring"
  pathsEqual :: "jsstring \<Rightarrow> jsstring \<Rightarrow> bool"
  workspaceEqual :: "entity \<Rightarrow> entity \<Rightarrow> error + bool"
  projectEqual :: "entity \<Rightarrow> entity \<Rightarrow> bool"
  reloadProject :: "entity \<Rightarrow> ext_state \<Rightarrow> (error + unit) \<times> ext_state"
  reloadWorkspace :: "ext_state \<Rightarrow> (error + unit) \<times> ext_state"

text \<open>Modelled from the spec: \<open>set\<close> of the selection models and \<open>setFallbackProjects\<close>
  and \<open>getFallbackProjects\<close> of \<open>ExtensionState\<close> are not in the source files at hand.
  \<open>set\<close> replaces the held sequence and keeps the selection on the entity with the
  selected entity's path, if there is one (section 4.4); the selection of the project
  model is read by no handler and is left out. \<open>setFallbackProjects\<close> stores the list
  that \<open>getFallbackProjects\<close> returns, the field \<open>fallbackProjects\<close>.\<close>

definition workspaceSet :: "entity list \<Rightarrow> ext_state \<Rightarrow> ext_state" where
  "workspaceSet ws st =
     st\<lparr>workspaces := ws,
        selected := (case selected st of
                       None \<Rightarrow> None
                     | Some s \<Rightarrow> find (\<lambda>w. path w = path s) ws),
        events := events st @ [WorkspaceSet ws]\<rparr>"

definition projectSet :: "entity list \<Rightarrow> ext_state \<Rightarrow> ext_state" where
  "projectSet ps st = st\<lparr>projects := ps, events := events st @ [ProjectSet ps]\<rparr>"

definition setFallbackProjects :: "entity list \<Rightarrow> ext_state \<Rightarrow> ext_state" where
  "setFallbackProjects ps st =
     st\<lparr>fallbackProjects := ps, events := events st @ [SetFallbackProjects ps]\<rparr>"

text \<open>\<open>Array.prototype.sort(compareFn)\<close> is stable: an element goes before the first
  element that it does not come after. Insertion from the right gives that order.\<close>

fun insert_by :: "('a \<Rightarrow> 'a \<Rightarrow> int) \<Rightarrow> 'a \<Rightarrow> 'a list \<Rightarrow> 'a list" where
  "insert_by cmp x [] = [x]"
| "insert_by cmp x (y # ys) = (if cmp x y \<le> 0 then x # y # ys else y # insert_by cmp x ys)"

definition array_sort :: "('a \<Rightarrow> 'a \<Rightarrow> int) \<Rightarrow> 'a list \<Rightarrow> 'a list" where
  "array_sort cmp xs = foldr (insert_by cmp) xs []"

text \<open>\<open>(a, b) => a.name.localeCompare(b.name)\<close>\<close>

definition byName :: "deps \<Rightarrow> entity \<Rightarrow> entity \<Rightarrow> int" where
  "byName d a b = localeCompare d (name a) (name b)"

text \<open>A constructor call: the parsed object with a fresh reference, or the error thrown.\<close>

definition construct :: "(jsstring \<Rightarrow> error + entity) \<Rightarrow> nat \<Rightarrow> jsstring \<Rightarrow> error + entity" where
  "construct parse r file =
     (case parse file of Inl e \<Rightarrow> Inl e | Inr ent \<Rightarrow> Inr (ent\<lparr>ref := r\<rparr>))"

text \<open>The \<open>forEach\<close> loop of both \<open>subscribe\<close> handlers, with its \<open>try\<close> and \<open>catch\<close>:
  \<open>acc\<close> is the array being filled.\<close>

fun parse_each ::
  "kind \<Rightarrow> (jsstring \<Rightarrow> error + entity) \<Rightarrow> jsstring list \<Rightarrow> ext_state \<Rightarrow> entity list
   \<Rightarrow> entity list \<times> ext_state" where
  "parse_each k parse [] st acc = (acc, st)"
| "parse_each k parse (file # files) st acc =
     (case construct parse (next_ref st) file of
        Inr ent \<Rightarrow> parse_each k parse files (st\<lparr>next_ref := Suc (next_ref st)\<rparr>) (acc @ [ent])
      | Inl e \<Rightarrow>
          parse_each k parse files
            (st\<lparr>events := events st @ [LoggerError k file e, ShowErrorMessage k file e]\<rparr>) acc)"

text \<open>\<open>IarVsc.ewwWatcher.subscribe(files => ...)\<close>\<close>

definition ewwSubscribe :: "deps \<Rightarrow> jsstring list \<Rightarrow> ext_state \<Rightarrow> ext_state" where
  "ewwSubscribe d files st =
     (let (workspaces, st1) = parse_each WorkspaceFile (parseEww d) files st [];
          st2 = st1\<lparr>events := events st1 @ [LoggerDebug WorkspaceFile (length workspaces)]\<rparr>
      in workspaceSet (array_sort (byName d) workspaces) st2)"

text \<open>\<open>IarVsc.ewpWatcher.subscribe(files => ...)\<close>\<close>

definition ewpSubscribe :: "deps \<Rightarrow> jsstring list \<Rightarrow> ext_state \<Rightarrow> ext_state" where
  "ewpSubscribe d files st =
     (let (projects, st1) =
            parse_each ProjectFile (parseEwp d) (filter (\<lambda>file. \<not> isIgnoredFile d file) files) st [];
          projects = array_sort (byName d) projects
      in if stringify d projects \<noteq> stringify d (fallbackProjects st1) then
           setFallbackProjects projects
             (st1\<lparr>events := events st1 @ [LoggerDebug ProjectFile (length projects)]\<rparr>)
         else st1)"

text \<open>\<open>workspace === oldWorkspace\<close>\<close>

definition same_object :: "entity \<Rightarrow> entity \<Rightarrow> bool" where
  "same_object a b = (ref a = ref b)"

text \<open>The \<open>forEach\<close> loop of both \<open>onFileModified\<close> handlers, filling the updated array.\<close>

definition replaced :: "entity \<Rightarrow> entity \<Rightarrow> entity list \<Rightarrow> entity list" where
  "replaced old reloaded xs = map (\<lambda>x. if same_object x old then reloaded else x) xs"

text \<open>\<open>IarVsc.ewwWatcher.onFileModified(async modifiedFile => ...)\<close>: the promise of the
  handler is rejected (\<open>Inl\<close>) by an error thrown or awaited in its body.\<close>

definition ewwOnFileModified :: "deps \<Rightarrow> jsstring \<Rightarrow> ext_state \<Rightarrow> (error + unit) \<times> ext_state" where
  "ewwOnFileModified d modifiedFile st =
     (case find (\<lambda>ws. pathsEqual d (path ws) modifiedFile) (workspaces st) of
        None \<Rightarrow> (Inr (), st)
      | Some oldWorkspace \<Rightarrow>
          (case construct (parseEww d) (next_ref st) modifiedFile of
             Inl e \<Rightarrow> (Inl e, st)
           | Inr reloadedWorkspace \<Rightarrow>
               let st1 = st\<lparr>next_ref := Suc (next_ref st)\<rparr>
               in (case workspaceEqual d oldWorkspace reloadedWorkspace of
                     Inl e \<Rightarrow> (Inl e, st1)
                   | Inr False \<Rightarrow>
                       (Inr (), workspaceSet (replaced oldWorkspace reloadedWorkspace (workspaces st1)) st1)
                   | Inr True \<Rightarrow>
                       (case selected st1 of
                          None \<Rightarrow> (Inr (), st1)
                        | Some s \<Rightarrow>
                            if same_object s oldWorkspace then reloadWorkspace d st1
                            else (Inr (), st1)))))"

text \<open>\<open>IarVsc.ewpWatcher.onFileModified(async modifiedFile => ...)\<close>\<close>

definition ewpOnFileModified :: "deps \<Rightarrow> jsstring \<Rightarrow> ext_state \<Rightarrow> (error + unit) \<times> ext_state" where
  "ewpOnFileModified d modifiedFile st =
     (case find (\<lambda>project. pathsEqual d (path project) modifiedFile) (projects st) of
        None \<Rightarrow> (Inr (), st)
      | Some oldProject \<Rightarrow>
          (case reloadProject d oldProject st of
             (Inl e, st1) \<Rightarrow> (Inl e, st1)
           | (Inr _, st1) \<Rightarrow>
               (case construct (parseEwp d) (next_ref st1) modifiedFile of
                  Inl e \<Rightarrow> (Inl e, st1)
                | Inr reloadedProject \<Rightarrow>
                    let st2 = st1\<lparr>next_ref := Suc (next_ref st1)\<rparr>
                    in if \<not> projectEqual d oldProject reloadedProject then
                         (Inr (), projectSet (replaced oldProject reloadedProject (projects st2)) st2)
                       else (Inr (), st2))))"

section \<open>Notions used in the statements\<close>

text \<open>An object without its reference: what the parser read.\<close>

definition unref :: "entity \<Rightarrow> entity" where
  "unref e = e\<lparr>ref := 0\<rparr>"

text \<open>The files of a list that parse, as parsed, and the reports for those that do not.\<close>

definition successes :: "(jsstring \<Rightarrow> error + entity) \<Rightarrow> jsstring list \<Rightarrow> entity list" where
  "successes parse files =
     List.map_filter (\<lambda>file. case parse file of Inl e \<Rightarrow> None | Inr ent \<Rightarrow> Some (unref ent)) files"

definition reports :: "kind \<Rightarrow> (jsstring \<Rightarrow> error + entity) \<Rightarrow> jsstring list \<Rightarrow> event list" where
  "reports k parse files =
     concat (map (\<lambda>file. case parse file of
                            Inl e \<Rightarrow> [LoggerError k file e, ShowErrorMessage k file e]
                          | Inr ent \<Rightarrow> []) files)"

text \<open>Case-sensitive lexicographic order: strings compared code unit by code unit, as
  \<open><\<close> on JavaScript strings does.\<close>

fun compare_units :: "jsstring \<Rightarrow> jsstring \<Rightarrow> int" where
  "compare_units [] [] = 0"
| "compare_units [] (y # ys) = - 1"
| "compare_units (x # xs) [] = 1"
| "compare_units (x # xs) (y # ys) =
     (if x < y then - 1 else if y < x then 1 else compare_units xs ys)"

definition lexicographic_le :: "jsstring \<Rightarrow> jsstring \<Rightarrow> bool" where
  "lexicographic_le a b = (compare_units a b \<le> 0)"

text \<open>
  \<open>String.prototype.localeCompare\<close> is the collation of the host. On names of ASCII
  letters, the collation of Node and of VS Code (ICU, root locale) compares the letters
  whatever their case first, and puts a lower-case letter before its upper-case letter
  only between names that have the same letters: \<open>"a".localeCompare("B")\<close> is negative,
  \<open>"a" < "B"\<close> is false. \<open>sortKey\<close> is the sort key of such a name: its letters in lower
  case, a separator, and the case of each letter.
\<close>

definition isUpper :: "jschar \<Rightarrow> bool" where
  "isUpper c = (0x41 \<le> c \<and> c \<le> 0x5A)"

definition sortKey :: "jsstring \<Rightarrow> jsstring" where
  "sortKey a =
     map (\<lambda>c. if isUpper c then c + 0x20 else c) a @ [0] @ map (\<lambda>c. if isUpper c then 1 else 0) a"

definition collate :: "jsstring \<Rightarrow> jsstring \<Rightarrow> int" where
  "collate a b = compare_units (sortKey a) (sortKey b)"

section \<open>Concrete inputs\<close>

text \<open>A file system with the one directory \<open>/proj\<close>, and a task that leaves given entries
  in it and settles with a given result.\<close>

definition in_proj :: "jsstring list \<Rightarrow> (jsstring \<times> jsstring) list \<Rightarrow> fs" where
  "in_proj files locked = \<lparr>dirs = [str ''/proj'' \<mapsto> files], undeletable = locked\<rparr>"

definition leaves :: "jsstring list \<Rightarrow> error + 'a \<Rightarrow> fs \<Rightarrow> 'a call \<times> fs" where
  "leaves files result f = (Settled result, f\<lparr>dirs := (dirs f)(str ''/proj'' \<mapsto> files)\<rparr>)"

text \<open>A task that removes the directory and settles with a given result.\<close>

definition removes_proj :: "error + 'a \<Rightarrow> fs \<Rightarrow> 'a call \<times> fs" where
  "removes_proj result f = (Settled result, f\<lparr>dirs := (dirs f)(str ''/proj'' := None)\<rparr>)"

text \<open>A task that writes a backup and throws before it returns a promise.\<close>

definition throws_after :: "jsstring list \<Rightarrow> error \<Rightarrow> fs \<Rightarrow> 'a call \<times> fs" where
  "throws_after files e f = (Thrown e, f\<lparr>dirs := (dirs f)(str ''/proj'' \<mapsto> files)\<rparr>)"

definition Foo_ewp :: jsstring where
  "Foo_ewp = str ''Foo.ewp''"

definition Unrelated_ewp :: jsstring where
  "Unrelated_ewp = str ''Unrelated.ewp''"

definition Backup_ewp :: jsstring where
  "Backup_ewp = str ''Backup of Foo.ewp''"

definition Backup_ewt :: jsstring where
  "Backup_ewt = str ''Backup of Foo.ewt''"

definition Backup2_ewp :: jsstring where
  "Backup2_ewp = str ''Backup (2) of Foo.ewp''"

definition Backup_jpn :: jsstring where
  "Backup_jpn = str ''Foo '' @ noBackup @ str ''.ewp''"

text \<open>
  Collaborators for the examples: a parser that fails on the files listed as corrupt and
  reads the name of a file off its path and its content off a table; the backup
  predicate as the ignore predicate; the collation above; a serialization of the parsed
  fields; equality of paths; equality of the parsed fields; reloads that do nothing.
\<close>

definition ex_parse ::
  "jsstring \<Rightarrow> jsstring list \<Rightarrow> (jsstring \<Rightarrow> jsstring) \<Rightarrow> jsstring \<Rightarrow> error + entity" where
  "ex_parse ext corrupt contents file =
     (if file \<in> set corrupt then Inl (ParseError (str ''malformed''))
      else Inr \<lparr>ref = 0, path = file, name = basename_ext file ext, content = contents file\<rparr>)"

definition serialize :: "entity list \<Rightarrow> jsstring" where
  "serialize es =
     concat (map (\<lambda>e. str ''{'' @ path e @ str '','' @ name e @ str '','' @ content e @ str ''}'') es)"

definition ex_deps :: "jsstring list \<Rightarrow> (jsstring \<Rightarrow> jsstring) \<Rightarrow> deps" where
  "ex_deps corrupt contents =
     \<lparr>parseEww = ex_parse (str ''.eww'') corrupt contents,
      parseEwp = ex_parse (str ''.ewp'') corrupt contents,
      isIgnoredFile = isBackupFile,
      localeCompare = collate,
      stringify = serialize,
      pathsEqual = (\<lambda>a b. a = b),
      workspaceEqual = (\<lambda>a b. Inr (unref a = unref b)),
      projectEqual = (\<lambda>a b. unref a = unref b),
      reloadProject = (\<lambda>p st. (Inr (), st)),
      reloadWorkspace = (\<lambda>st. (Inr (), st))\<rparr>"

definition tracking :: "entity list \<Rightarrow> entity list \<Rightarrow> ext_state" where
  "tracking ws ps =
     \<lparr>workspaces = ws, selected = None, projects = ps, fallbackProjects = ps,
      next_ref = length ws + length ps, events = []\<rparr>"

definition file_v :: "nat \<Rightarrow> jsstring \<Rightarrow> jsstring \<Rightarrow> jsstring \<Rightarrow> entity" where
  "file_v r p n c = \<lparr>ref = r, path = p, name = n, content = c\<rparr>"

text \<open>Files of a workspace folder, and a state that tracks two workspaces and a project.\<close>

definition Good_ewp :: jsstring where
  "Good_ewp = str ''/w/Good.ewp''"

definition Corrupt_ewp :: jsstring where
  "Corrupt_ewp = str ''/w/Corrupt.ewp''"

definition a_eww :: jsstring where
  "a_eww = str ''/w/a.eww''"

definition B_eww :: jsstring where
  "B_eww = str ''/w/B.eww''"

definition ex_tracked :: ext_state where
  "ex_tracked =
     tracking [file_v 0 a_eww (str ''a'') (str ''v1''), file_v 1 B_eww (str ''B'') (str ''v1'')]
       [file_v 2 Good_ewp (str ''Good'') (str ''v1'')]"

section \<open>Properties\<close>

lemmas eval_defs =
  str_def noBackup_def lit_def test_whole_def sep_def basename_def

text \<open>
  C6. The backup-shaped filename predicate holds of \<open>Backup (2) of Foo.ewp\<close> and of
  \<open>Foo <noBackup> (3).ewp\<close> (the Japanese form), and does not hold of
  \<open>MyBackupFile.ewp\<close>.
\<close>

theorem isBackupFile_examples:
  "isBackupFile (str ''Backup (2) of Foo.ewp'')
   \<and> isBackupFile (str ''Foo '' @ noBackup @ str '' (3).ewp'')
   \<and> \<not> isBackupFile (str ''MyBackupFile.ewp'')"
  by (simp add: isBackupFile_def isBackupEng_def isBackupJpn_def eval_defs)

subsection \<open>RegexUtils.escape\<close>

lemma syntax_escaped: "syntaxCharacter c = (c \<in> set escapedChars)"
  by (auto simp: syntaxCharacter_def escapedChars_def)

lemma pattern_escape: "pattern (escape s) = Some (lit s)"
  by (induction s) (auto simp: escape_def lit_def syntax_escaped escapedChars_def backslash_def)

lemma run_lit: "run (lit s) u = (if prefix s u then [drop (length s) u] else [])"
proof (induction s arbitrary: u)
  case Nil
  then show ?case by (simp add: lit_def)
next
  case (Cons c s)
  have l: "lit (c # s) = Seq (Atom (Unit c)) (lit s)" by (simp add: lit_def)
  show ?case
  proof (cases u)
    case Nil
    then show ?thesis by (simp add: l)
  next
    case (Cons x xs)
    then show ?thesis using Cons.IH [of xs] by (simp add: l)
  qed
qed

lemma test_search_iff: "test_search r t = (\<exists>ps u. t = ps @ u \<and> run r u \<noteq> [])"
proof (induction t)
  case Nil
  show ?case by simp
next
  case (Cons x xs)
  show ?case
    unfolding test_search.simps Cons.IH
    by (auto simp: append_eq_Cons_conv Cons_eq_append_conv)
qed

lemma search_lit: "test_search (lit s) t = sublist s t"
  unfolding test_search_iff run_lit sublist_def
  by (auto simp: prefix_def)

text \<open>
  C10. The regular expression built from \<open>RegexUtils.escape s\<close> matches \<open>s\<close> itself, and
  it matches a string \<open>t\<close> exactly where \<open>t\<close> contains \<open>s\<close> literally: it is found in \<open>t\<close>
  if and only if \<open>s\<close> is a contiguous part of \<open>t\<close>, and started at any position it has
  one match, the literal \<open>s\<close>, when the text there begins with \<open>s\<close>, and none otherwise.
  No syntax character of \<open>s\<close> keeps a special meaning.
\<close>

theorem escape_literal:
  "\<exists>r. pattern (escape s) = Some r \<and> test_search r s
     \<and> (\<forall>t. test_search r t = sublist s t)
     \<and> (\<forall>u. run r u = (if prefix s u then [drop (length s) u] else []))"
  using pattern_escape [of s] search_lit [of s] run_lit [of s] by simp

subsection \<open>ListUtils.mergeUnique\<close>

lemma first_keys_snoc:
  "first_keys (ks @ [k]) = (if k \<in> set ks then first_keys ks else first_keys ks @ [k])"
  by (simp add: first_keys_def)

lemma distinct_first_keys: "distinct (first_keys ks)"
  by (simp add: first_keys_def)

lemma set_first_keys: "set (first_keys ks) = set ks"
  by (simp add: first_keys_def)

lemma foldl_nested:
  "foldl (\<lambda>r l. foldl f r l) r ls = foldl f r (concat ls)"
  by (induction ls arbitrary: r) simp_all

lemma map_set_tabulate:
  "distinct ks \<Longrightarrow>
   map_set k v (map (\<lambda>j. (j, g j)) ks) =
     (if k \<in> set ks then map (\<lambda>j. (j, (g(k := v)) j)) ks
      else map (\<lambda>j. (j, g j)) ks @ [(k, v)])"
  by (induction ks) auto

lemma last_with_snoc:
  "last_with getKey (xs @ [x]) = (last_with getKey xs)(getKey x := x)"
  by (auto simp: last_with_def fun_eq_iff)

lemma entries_tabulate:
  "foldl (\<lambda>result item. map_set (getKey item) item result) [] xs =
     map (\<lambda>k. (k, last_with getKey xs k)) (first_keys (map getKey xs))"
proof (induction xs rule: rev_induct)
  case Nil
  show ?case by (simp add: first_keys_def)
next
  case (snoc x xs)
  let ?ks = "first_keys (map getKey xs)"
  let ?g = "last_with getKey xs"
  have step: "foldl (\<lambda>result item. map_set (getKey item) item result) [] (xs @ [x]) =
      map_set (getKey x) x (map (\<lambda>k. (k, ?g k)) ?ks)"
    by (simp add: snoc.IH)
  show ?case
  proof (cases "getKey x \<in> set ?ks")
    case True
    then show ?thesis
      unfolding step
      by (simp add: map_set_tabulate distinct_first_keys set_first_keys first_keys_snoc
          last_with_snoc)
  next
    case False
    have same: "map (\<lambda>k. (k, (?g(getKey x := x)) k)) ?ks = map (\<lambda>k. (k, ?g k)) ?ks"
    proof (rule map_cong [OF refl])
      fix k
      assume "k \<in> set ?ks"
      with False have "k \<noteq> getKey x"
        by blast
      then show "(k, (?g(getKey x := x)) k) = (k, ?g k)"
        by simp
    qed
    from False have nin: "getKey x \<notin> set (map getKey xs)"
      by (simp add: set_first_keys)
    have a: "map_set (getKey x) x (map (\<lambda>k. (k, ?g k)) ?ks) =
        map (\<lambda>k. (k, ?g k)) ?ks @ [(getKey x, x)]"
      using False by (simp add: map_set_tabulate distinct_first_keys)
    have b: "first_keys (map getKey (xs @ [x])) = ?ks @ [getKey x]"
      using nin by (simp add: first_keys_snoc)
    show ?thesis
      unfolding step a b using False by (simp add: last_with_snoc same)
  qed
qed

lemma mergeUnique_eq:
  "mergeUnique getKey lsts =
     map (last_with getKey (concat lsts)) (first_keys (map getKey (concat lsts)))"
  by (simp add: mergeUnique_def foldl_nested entries_tabulate comp_def)

lemma getKey_last_with:
  "k \<in> getKey ` set xs \<Longrightarrow> getKey (last_with getKey xs k) = k"
proof -
  assume "k \<in> getKey ` set xs"
  then have ne: "filter (\<lambda>x. getKey x = k) xs \<noteq> []"
    by (auto simp: filter_empty_conv)
  from last_in_set [OF ne] show ?thesis by (simp add: last_with_def)
qed

lemma keys_mergeUnique:
  "map getKey (mergeUnique getKey lsts) = first_keys (map getKey (concat lsts))"
proof -
  have "map (getKey \<circ> last_with getKey (concat lsts)) (first_keys (map getKey (concat lsts)))
        = map id (first_keys (map getKey (concat lsts)))"
    by (rule map_cong [OF refl]) (simp add: set_first_keys getKey_last_with del: set_concat)
  then show ?thesis by (simp add: mergeUnique_eq)
qed

text \<open>
  C9. For every key function and every sequence of input lists, the result of
  \<open>mergeUnique\<close> has one element for each key that occurs in an input list: the keys
  stand in the order of their first occurrence in the concatenated inputs, the element
  kept for a key is its last occurrence there, and no two elements share a key.
\<close>

theorem mergeUnique_spec:
  "mergeUnique getKey lsts =
     map (last_with getKey (concat lsts)) (first_keys (map getKey (concat lsts)))
   \<and> map getKey (mergeUnique getKey lsts) = first_keys (map getKey (concat lsts))
   \<and> distinct (map getKey (mergeUnique getKey lsts))
   \<and> set (map getKey (mergeUnique getKey lsts)) = getKey ` set (concat lsts)"
  using mergeUnique_eq [of getKey lsts] keys_mergeUnique [of getKey lsts]
  by (simp add: distinct_first_keys set_first_keys)

subsection \<open>BackupUtils.doWithBackupCheck\<close>

lemma rm_effect:
  "dirs f d = Some files \<Longrightarrow>
   snd (rm f d x) =
     f\<lparr>dirs := (dirs f)(d \<mapsto> filter (\<lambda>y. \<not> (y = x \<and> (d, y) \<notin> set (undeletable f))) files)\<rparr>"
proof -
  assume files: "dirs f d = Some files"
  show ?thesis
  proof (cases "x \<in> set files \<and> (d, x) \<notin> set (undeletable f)")
    case True
    have "removeAll x files = filter (\<lambda>y. \<not> (y = x \<and> (d, y) \<notin> set (undeletable f))) files"
      unfolding removeAll_filter_not_eq using True by (intro filter_cong) auto
    with True files show ?thesis
      by (simp add: rm_def)
  next
    case False
    then have "filter (\<lambda>y. \<not> (y = x \<and> (d, y) \<notin> set (undeletable f))) files = files"
      by (auto simp: filter_id_conv)
    moreover from files have "(dirs f)(d \<mapsto> files) = dirs f"
      by (rule map_upd_triv)
    ultimately show ?thesis
      using False files by (auto simp: rm_def)
  qed
qed

lemma rm_all_effect:
  "dirs f d = Some files \<Longrightarrow>
   fst (rm_all f d xs) =
     f\<lparr>dirs := (dirs f)(d \<mapsto> filter (\<lambda>y. \<not> (y \<in> set xs \<and> (d, y) \<notin> set (undeletable f))) files)\<rparr>"
proof (induction xs arbitrary: f files)
  case Nil
  then have "(dirs f)(d \<mapsto> files) = dirs f"
    by (rule map_upd_triv)
  then show ?case by simp
next
  case (Cons x xs)
  let ?files1 = "filter (\<lambda>y. \<not> (y = x \<and> (d, y) \<notin> set (undeletable f))) files"
  let ?f1 = "f\<lparr>dirs := (dirs f)(d \<mapsto> ?files1)\<rparr>"
  have step: "snd (rm f d x) = ?f1"
    using Cons.prems by (rule rm_effect)
  have unfold: "fst (rm_all f d (x # xs)) = fst (rm_all (snd (rm f d x)) d xs)"
    by (simp add: split_beta)
  have "dirs ?f1 d = Some ?files1"
    by simp
  from Cons.IH [OF this]
  have ih: "fst (rm_all ?f1 d xs) =
      ?f1\<lparr>dirs := (dirs ?f1)(d \<mapsto>
        filter (\<lambda>y. \<not> (y \<in> set xs \<and> (d, y) \<notin> set (undeletable ?f1))) ?files1)\<rparr>" .
  have twice: "filter (\<lambda>y. \<not> (y \<in> set xs \<and> (d, y) \<notin> set (undeletable ?f1))) ?files1 =
      filter (\<lambda>y. \<not> (y \<in> set (x # xs) \<and> (d, y) \<notin> set (undeletable f))) files"
    by (auto intro: filter_cong)
  show ?case
    unfolding unfold step ih twice by (cases f) (simp add: fun_eq_iff)
qed

lemma cleaning_steps:
  "Settles \<notin> set (snd (rm_all f d xs)) \<and> TaskCalled \<notin> set (snd (rm_all f d xs))"
  by (induction xs arbitrary: f) (simp_all add: split_beta Let_def)

lemma cleanup_steps:
  "Settles \<notin> set (snd (snd (cleanup d n original f)))
   \<and> TaskCalled \<notin> set (snd (snd (cleanup d n original f)))"
  using cleaning_steps by (simp add: cleanup_def Let_def split_beta split: sum.splits)

text \<open>
  What the guard leaves of the file system when the task has returned a promise and the
  directory is read again: the file system of the task, where, if the number of
  backup-named entries differs between the two snapshots, the directory of the project
  has lost the entries that have a backup name, were not there before the task and can
  be removed. With equal numbers nothing is removed.
\<close>

lemma cleanup_effect:
  assumes before: "dirs f (dirname project) = Some before"
      and task: "task f = (Settled result, f1)"
      and after: "dirs f1 (dirname project) = Some after"
  shows "final (doWithBackupCheck project task f) =
     (if length (filter (isBackupOf project) before) \<noteq> length (filter (isBackupOf project) after)
      then f1\<lparr>dirs := (dirs f1)(dirname project \<mapsto>
             filter (\<lambda>file. \<not> (isBackupOf project file \<and> file \<notin> set before
                    \<and> (dirname project, file) \<notin> set (undeletable f1))) after)\<rparr>
      else f1)"
proof -
  let ?d = "dirname project"
  let ?n = "lit (basename_ext project (str ''.ewp''))"
  let ?new = "filter (\<lambda>b. b \<notin> set (filter (isBackupOf project) before)) (filter (isBackupOf project) after)"
  have m: "matchesBackup ?n = isBackupOf project"
    by (simp add: isBackupOf_def [abs_def])
  have fin: "final (doWithBackupCheck project task f) =
      fst (snd (cleanup ?d ?n (filter (isBackupOf project) before) f1))"
    using before task
    by (simp add: doWithBackupCheck_def pattern_escape readdir_def Let_def m split_beta)
  have cl: "fst (snd (cleanup ?d ?n (filter (isBackupOf project) before) f1)) =
      (if length (filter (isBackupOf project) before) \<noteq> length (filter (isBackupOf project) after)
       then fst (rm_all f1 ?d ?new) else f1)"
    using after by (simp add: cleanup_def readdir_def Let_def m split_beta)
  have "filter (\<lambda>x. \<not> (x \<in> set ?new \<and> (?d, x) \<notin> set (undeletable f1))) after =
      filter (\<lambda>file. \<not> (isBackupOf project file \<and> file \<notin> set before
                    \<and> (?d, file) \<notin> set (undeletable f1))) after"
    by (rule filter_cong) auto
  with rm_all_effect [OF after, of ?new] show ?thesis
    unfolding fin cl by simp
qed

lemmas file_defs = Foo_ewp_def Unrelated_ewp_def Backup_ewp_def Backup_ewt_def Backup2_ewp_def
  Backup_jpn_def

lemmas path_defs = basename_ext_def basename_def slice_def match_ext_def sep_def str_def Let_def

lemma dirname_Foo:
  "dirname (str ''/proj/Foo.ewp'') = str ''/proj''"
  "dirname (str ''/gone/Foo.ewp'') = str ''/gone''"
  by (simp_all add: dirname_def eval_defs)

lemma basename_Foo: "basename_ext (str ''/proj/Foo.ewp'') (str ''.ewp'') = str ''Foo''"
  by (simp add: path_defs)

lemma basename_quirks:
  "basename_ext (str ''/proj/wp/'') (str ''.ewp'') = str ''wp/''"
  "basename_ext (str ''/proj/.ewp'') (str ''.ewp'') = str ''.ewp''"
  "basename_ext (str ''.ewp'') (str ''.ewp'') = []"
  by (simp_all add: path_defs)

lemma matches_Foo:
  "matchesBackup (lit (str ''Foo'')) Backup_ewp"
  "matchesBackup (lit (str ''Foo'')) Backup_ewt"
  "matchesBackup (lit (str ''Foo'')) Backup2_ewp"
  "matchesBackup (lit (str ''Foo'')) Backup_jpn"
  "\<not> matchesBackup (lit (str ''Foo'')) Foo_ewp"
  "\<not> matchesBackup (lit (str ''Foo'')) Unrelated_ewp"
  by (simp_all add: matchesBackup_def backupRegexEng_def backupRegexJpn_def file_defs eval_defs)

lemma only_japanese:
  "\<not> test_search (backupRegexEng (lit (str ''Foo''))) Backup_jpn"
  "test_search (backupRegexJpn (lit (str ''Foo''))) Backup_jpn"
  by (simp_all add: backupRegexEng_def backupRegexJpn_def file_defs eval_defs)

lemma distinct_files:
  "Foo_ewp \<noteq> Unrelated_ewp" "Foo_ewp \<noteq> Backup_ewp" "Foo_ewp \<noteq> Backup_ewt"
  "Foo_ewp \<noteq> Backup2_ewp" "Foo_ewp \<noteq> Backup_jpn" "Unrelated_ewp \<noteq> Foo_ewp"
  "Unrelated_ewp \<noteq> Backup_ewp" "Unrelated_ewp \<noteq> Backup_ewt" "Unrelated_ewp \<noteq> Backup2_ewp"
  "Unrelated_ewp \<noteq> Backup_jpn" "Backup_ewp \<noteq> Foo_ewp" "Backup_ewp \<noteq> Unrelated_ewp"
  "Backup_ewp \<noteq> Backup_ewt" "Backup_ewp \<noteq> Backup2_ewp" "Backup_ewp \<noteq> Backup_jpn"
  "Backup_ewt \<noteq> Foo_ewp" "Backup_ewt \<noteq> Unrelated_ewp" "Backup_ewt \<noteq> Backup_ewp"
  "Backup_ewt \<noteq> Backup2_ewp" "Backup_ewt \<noteq> Backup_jpn" "Backup2_ewp \<noteq> Foo_ewp"
  "Backup2_ewp \<noteq> Unrelated_ewp" "Backup2_ewp \<noteq> Backup_ewp" "Backup2_ewp \<noteq> Backup_ewt"
  "Backup2_ewp \<noteq> Backup_jpn" "Backup_jpn \<noteq> Foo_ewp" "Backup_jpn \<noteq> Unrelated_ewp"
  "Backup_jpn \<noteq> Backup_ewp" "Backup_jpn \<noteq> Backup_ewt" "Backup_jpn \<noteq> Backup2_ewp"
  by (simp_all add: file_defs str_def noBackup_def)

lemma proj_gone: "str ''/gone'' \<noteq> str ''/proj''"
  by (simp add: str_def)

text \<open>
  C1, on the code. The example of the specification works: the task leaves two backups
  and a backup with the Japanese name beside the files that were there, the numbers of
  backup names differ (0 and 3), and the guard removes the three and nothing else. But
  when one old backup has gone and one new backup has come while the task ran, the
  numbers agree (1 and 1), the guard removes nothing, and the new backup, which has a
  backup name and was not there before the task, stays.
\<close>

theorem new_backup_kept_when_counts_agree:
  "final (doWithBackupCheck (str ''/proj/Foo.ewp'')
      (leaves [Foo_ewp, Unrelated_ewp, Backup_ewp, Backup_ewt, Backup_jpn] (Inr ()))
      (in_proj [Foo_ewp, Unrelated_ewp] []))
     = in_proj [Foo_ewp, Unrelated_ewp] []
   \<and> matchesBackup (lit (str ''Foo'')) Backup2_ewp
   \<and> Backup2_ewp \<notin> set [Foo_ewp, Unrelated_ewp, Backup_ewp]
   \<and> final (doWithBackupCheck (str ''/proj/Foo.ewp'')
        (leaves [Foo_ewp, Unrelated_ewp, Backup2_ewp] (Inr ()))
        (in_proj [Foo_ewp, Unrelated_ewp, Backup_ewp] []))
     = in_proj [Foo_ewp, Unrelated_ewp, Backup2_ewp] []
   \<and> steps (doWithBackupCheck (str ''/proj/Foo.ewp'')
        (leaves [Foo_ewp, Unrelated_ewp, Backup2_ewp] (Inr ()))
        (in_proj [Foo_ewp, Unrelated_ewp, Backup_ewp] []))
     = [Readdir (str ''/proj'') (Inr [Foo_ewp, Unrelated_ewp, Backup_ewp]), TaskCalled, Settles,
        Readdir (str ''/proj'') (Inr [Foo_ewp, Unrelated_ewp, Backup2_ewp])]"
  using distinct_files
  by (simp add: doWithBackupCheck_def pattern_escape dirname_Foo basename_Foo readdir_def
      in_proj_def leaves_def cleanup_def rm_def matches_Foo Let_def)

text \<open>
  C4, as amended. When the directory of the project can be read as the guard starts,
  the promise that \<open>doWithBackupCheck\<close> returns settles with exactly what the task gives,
  a value or a failure, also a failure thrown before the task returns a promise; it
  settles right after the call of the task, before any step of the cleanup completes,
  and whatever the second reading of the directory and the removals give. When the
  first reading of the directory fails, the promise is rejected with that error, the
  task is not called and the file system is as it was.
\<close>

theorem doWithBackupCheck_returns_task:
  "(\<forall>files. readdir f (dirname project) = Inr files \<longrightarrow>
      returned (doWithBackupCheck project task f) = task_outcome (fst (task f))
      \<and> (\<exists>cleaning.
            steps (doWithBackupCheck project task f) =
              [Readdir (dirname project) (Inr files), TaskCalled, Settles] @ cleaning
          \<and> Settles \<notin> set cleaning \<and> TaskCalled \<notin> set cleaning))
   \<and> (\<forall>e. readdir f (dirname project) = Inl e \<longrightarrow>
      doWithBackupCheck project task f =
        \<lparr>returned = Inl e, detached = None, final = f,
         steps = [Readdir (dirname project) (Inl e), Settles]\<rparr>)"
proof (intro conjI allI impI)
  fix files
  assume r: "readdir f (dirname project) = Inr files"
  show "returned (doWithBackupCheck project task f) = task_outcome (fst (task f))"
    using r
    by (cases "task f"; cases "fst (task f)")
      (simp_all add: doWithBackupCheck_def pattern_escape Let_def split_beta)
  show "\<exists>cleaning.
            steps (doWithBackupCheck project task f) =
              [Readdir (dirname project) (Inr files), TaskCalled, Settles] @ cleaning
          \<and> Settles \<notin> set cleaning \<and> TaskCalled \<notin> set cleaning"
  proof (cases "task f")
    case (Pair c f1)
    show ?thesis
    proof (cases c)
      case (Thrown e)
      with Pair r show ?thesis
        by (simp add: doWithBackupCheck_def pattern_escape Let_def)
    next
      case (Settled result)
      with Pair r cleanup_steps show ?thesis
        by (simp add: doWithBackupCheck_def pattern_escape Let_def split_beta)
    qed
  qed
next
  fix e
  assume "readdir f (dirname project) = Inl e"
  then show "doWithBackupCheck project task f =
        \<lparr>returned = Inl e, detached = None, final = f,
         steps = [Readdir (dirname project) (Inl e), Settles]\<rparr>"
    by (simp add: doWithBackupCheck_def pattern_escape Let_def)
qed

theorem doWithBackupCheck_returns_task_witness:
  "returned (doWithBackupCheck (str ''/proj/Foo.ewp'') (removes_proj (Inr (7::nat))) (in_proj [Foo_ewp] []))
       = Inr 7
   \<and> detached (doWithBackupCheck (str ''/proj/Foo.ewp'') (removes_proj (Inr (7::nat))) (in_proj [Foo_ewp] []))
       = Some ENOENT
   \<and> steps (doWithBackupCheck (str ''/proj/Foo.ewp'') (removes_proj (Inr (7::nat))) (in_proj [Foo_ewp] []))
       = [Readdir (str ''/proj'') (Inr [Foo_ewp]), TaskCalled, Settles, Readdir (str ''/proj'') (Inl ENOENT)]
   \<and> returned (doWithBackupCheck (str ''/proj/Foo.ewp'')
         (leaves [Foo_ewp, Backup_ewp] (Inl (TaskFailure (str ''build failed'')) :: error + nat))
         (in_proj [Foo_ewp] [(str ''/proj'', Backup_ewp)]))
       = Inl (TaskFailure (str ''build failed''))
   \<and> returned (doWithBackupCheck (str ''/proj/Foo.ewp'')
         (throws_after [Foo_ewp, Backup_ewp] (TaskFailure (str ''no promise'')) :: fs \<Rightarrow> nat call \<times> fs)
         (in_proj [Foo_ewp] []))
       = Inl (TaskFailure (str ''no promise''))
   \<and> doWithBackupCheck (str ''/gone/Foo.ewp'') (leaves [] (Inr (7::nat))) (in_proj [Foo_ewp] [])
       = \<lparr>returned = Inl ENOENT, detached = None, final = in_proj [Foo_ewp] [],
          steps = [Readdir (str ''/gone'') (Inl ENOENT), Settles]\<rparr>"
proof -
  let ?f = "in_proj [Foo_ewp] []"
  let ?locked = "in_proj [Foo_ewp] [(str ''/proj'', Backup_ewp)]"
  let ?failing = "leaves [Foo_ewp, Backup_ewp] (Inl (TaskFailure (str ''build failed'')) :: error + nat)"
  let ?throwing = "throws_after [Foo_ewp, Backup_ewp] (TaskFailure (str ''no promise'')) :: fs \<Rightarrow> nat call \<times> fs"
  have r: "readdir ?f (dirname (str ''/proj/Foo.ewp'')) = Inr [Foo_ewp]"
    and r2: "readdir ?locked (dirname (str ''/proj/Foo.ewp'')) = Inr [Foo_ewp]"
    and g: "readdir ?f (dirname (str ''/gone/Foo.ewp'')) = Inl ENOENT"
    using proj_gone by (simp_all add: dirname_Foo in_proj_def readdir_def)
  have d: "detached (doWithBackupCheck (str ''/proj/Foo.ewp'') (removes_proj (Inr (7::nat))) ?f)
       = Some ENOENT"
    and s: "steps (doWithBackupCheck (str ''/proj/Foo.ewp'') (removes_proj (Inr (7::nat))) ?f)
       = [Readdir (str ''/proj'') (Inr [Foo_ewp]), TaskCalled, Settles, Readdir (str ''/proj'') (Inl ENOENT)]"
    by (simp_all add: doWithBackupCheck_def pattern_escape dirname_Foo in_proj_def readdir_def
        removes_proj_def cleanup_def Let_def)
  from doWithBackupCheck_returns_task [of ?f "str ''/proj/Foo.ewp''" "removes_proj (Inr (7::nat))"] r
  have 1: "returned (doWithBackupCheck (str ''/proj/Foo.ewp'') (removes_proj (Inr (7::nat))) ?f) = Inr 7"
    by (simp add: removes_proj_def)
  from doWithBackupCheck_returns_task [of ?locked "str ''/proj/Foo.ewp''" ?failing] r2
  have 2: "returned (doWithBackupCheck (str ''/proj/Foo.ewp'') ?failing ?locked)
      = Inl (TaskFailure (str ''build failed''))"
    by (simp add: leaves_def)
  from doWithBackupCheck_returns_task [of ?f "str ''/proj/Foo.ewp''" ?throwing] r
  have 3: "returned (doWithBackupCheck (str ''/proj/Foo.ewp'') ?throwing ?f)
      = Inl (TaskFailure (str ''no promise''))"
    by (simp add: throws_after_def)
  from doWithBackupCheck_returns_task [of ?f "str ''/gone/Foo.ewp''" "leaves [] (Inr (7::nat))"] g
  have 4: "doWithBackupCheck (str ''/gone/Foo.ewp'') (leaves [] (Inr (7::nat))) ?f
       = \<lparr>returned = Inl ENOENT, detached = None, final = ?f,
          steps = [Readdir (str ''/gone'') (Inl ENOENT), Settles]\<rparr>"
    by (simp add: dirname_Foo)
  from 1 2 3 4 d s show ?thesis
    by simp
qed

theorem doWithBackupCheck_counterexample:
  "task_outcome (fst (leaves [] (Inr (7::nat)) (in_proj [Foo_ewp] []))) = Inr 7
   \<and> returned (doWithBackupCheck (str ''/gone/Foo.ewp'') (leaves [] (Inr (7::nat))) (in_proj [Foo_ewp] []))
       = Inl ENOENT"
  using proj_gone
  by (simp add: doWithBackupCheck_def pattern_escape dirname_Foo readdir_def in_proj_def leaves_def)

subsection \<open>The subscribe handlers\<close>

lemma parse_each_spec:
  "map unref (fst (parse_each k parse files st acc)) = map unref acc @ successes parse files
   \<and> events (snd (parse_each k parse files st acc)) = events st @ reports k parse files
   \<and> workspaces (snd (parse_each k parse files st acc)) = workspaces st
   \<and> selected (snd (parse_each k parse files st acc)) = selected st
   \<and> projects (snd (parse_each k parse files st acc)) = projects st
   \<and> fallbackProjects (snd (parse_each k parse files st acc)) = fallbackProjects st"
proof (induction files arbitrary: st acc)
  case Nil
  show ?case by (simp add: successes_def reports_def map_filter_simps)
next
  case (Cons x files)
  show ?case
  proof (cases "parse x")
    case (Inl e)
    then show ?thesis
      using Cons.IH [of "st\<lparr>events := events st @ [LoggerError k x e, ShowErrorMessage k x e]\<rparr>" acc]
      by (simp add: construct_def successes_def reports_def map_filter_simps)
  next
    case (Inr ent)
    then show ?thesis
      using Cons.IH [of "st\<lparr>next_ref := Suc (next_ref st)\<rparr>" "acc @ [ent\<lparr>ref := next_ref st\<rparr>]"]
      by (simp add: construct_def successes_def reports_def map_filter_simps unref_def)
  qed
qed

lemma set_insert_by: "set (insert_by cmp x ys) = insert x (set ys)"
  by (induction ys) auto

lemma mset_insert_by: "mset (insert_by cmp x ys) = add_mset x (mset ys)"
  by (induction ys) auto

lemma mset_array_sort: "mset (array_sort cmp xs) = mset xs"
  by (induction xs) (simp_all add: array_sort_def mset_insert_by)

lemma sorted_insert_by:
  assumes total: "\<And>a b. cmp a b \<le> 0 \<or> cmp b a \<le> 0"
      and trans: "\<And>a b c. cmp a b \<le> 0 \<Longrightarrow> cmp b c \<le> 0 \<Longrightarrow> cmp a c \<le> 0"
  shows "sorted_wrt (\<lambda>a b. cmp a b \<le> 0) ys \<Longrightarrow> sorted_wrt (\<lambda>a b. cmp a b \<le> 0) (insert_by cmp x ys)"
proof (induction ys)
  case Nil
  show ?case by simp
next
  case (Cons y ys)
  show ?case
  proof (cases "cmp x y \<le> 0")
    case True
    with Cons.prems show ?thesis by (auto intro: trans)
  next
    case False
    with total [of x y] have "cmp y x \<le> 0" by simp
    with False Cons show ?thesis by (auto simp: set_insert_by)
  qed
qed

lemma sorted_array_sort:
  assumes total: "\<And>a b. cmp a b \<le> 0 \<or> cmp b a \<le> 0"
      and trans: "\<And>a b c. cmp a b \<le> 0 \<Longrightarrow> cmp b c \<le> 0 \<Longrightarrow> cmp a c \<le> 0"
  shows "sorted_wrt (\<lambda>a b. cmp a b \<le> 0) (array_sort cmp xs)"
proof (induction xs)
  case Nil
  show ?case by (simp add: array_sort_def)
next
  case (Cons x xs)
  have "array_sort cmp (x # xs) = insert_by cmp x (array_sort cmp xs)"
    by (simp add: array_sort_def)
  with Cons sorted_insert_by [of cmp, OF total trans] show ?case by simp
qed

lemma filter_insert_by:
  assumes refl: "\<And>a b. key a = key b \<Longrightarrow> cmp a b \<le> 0"
  shows "filter (\<lambda>y. key y = k) (insert_by cmp x ys) =
     (if key x = k then x # filter (\<lambda>y. key y = k) ys else filter (\<lambda>y. key y = k) ys)"
  by (induction ys) (auto simp: refl)

lemma stable_array_sort:
  assumes refl: "\<And>a b. key a = key b \<Longrightarrow> cmp a b \<le> 0"
  shows "filter (\<lambda>y. key y = k) (array_sort cmp xs) = filter (\<lambda>y. key y = k) xs"
  by (induction xs) (simp_all add: array_sort_def filter_insert_by [of key cmp, OF refl])

lemma compare_units_total: "compare_units a b \<le> 0 \<or> compare_units b a \<le> 0"
  by (induction a b rule: compare_units.induct) auto

lemma workspaces_ewwSubscribe:
  "workspaces (ewwSubscribe d files st) =
     array_sort (byName d) (fst (parse_each WorkspaceFile (parseEww d) files st []))"
  by (simp add: ewwSubscribe_def workspaceSet_def split: prod.splits)

lemma ewpSubscribe_eq:
  "ewpSubscribe d files st =
     (let r = parse_each ProjectFile (parseEwp d) (filter (\<lambda>file. \<not> isIgnoredFile d file) files) st [];
          sorted = array_sort (byName d) (fst r)
      in if stringify d sorted \<noteq> stringify d (fallbackProjects st) then
           setFallbackProjects sorted
             ((snd r)\<lparr>events := events (snd r) @ [LoggerDebug ProjectFile (length sorted)]\<rparr>)
         else snd r)"
proof -
  obtain ps st1 where r:
    "parse_each ProjectFile (parseEwp d) (filter (\<lambda>file. \<not> isIgnoredFile d file) files) st [] = (ps, st1)"
    by (cases "parse_each ProjectFile (parseEwp d) (filter (\<lambda>file. \<not> isIgnoredFile d file) files) st []")
  have "fallbackProjects st1 = fallbackProjects st"
    using parse_each_spec [of ProjectFile "parseEwp d" "filter (\<lambda>file. \<not> isIgnoredFile d file) files" st "[]"]
    unfolding r by simp
  then show ?thesis
    unfolding ewpSubscribe_def r by (simp add: Let_def)
qed

lemma compare_units_Cons:
  "(compare_units (x # xs) (y # ys) \<le> 0) = (x < y \<or> (x = y \<and> compare_units xs ys \<le> 0))"
  by auto

lemma compare_units_trans:
  "compare_units a b \<le> 0 \<Longrightarrow> compare_units b c \<le> 0 \<Longrightarrow> compare_units a c \<le> 0"
proof (induction a arbitrary: b c)
  case Nil
  then show ?case by (cases c) simp_all
next
  case (Cons x xs)
  from Cons.prems(1) obtain y ys where b: "b = y # ys"
    by (cases b) simp_all
  from Cons.prems(2) b obtain z zs where c: "c = z # zs"
    by (cases c) simp_all
  from Cons.prems have 1: "x < y \<or> (x = y \<and> compare_units xs ys \<le> 0)"
    and 2: "y < z \<or> (y = z \<and> compare_units ys zs \<le> 0)"
    unfolding b c compare_units_Cons by simp_all
  from 1 2 Cons.IH [of ys zs] have "x < z \<or> (x = z \<and> compare_units xs zs \<le> 0)"
    by auto
  then show ?case
    unfolding c compare_units_Cons .
qed

lemma collate_total: "collate a b \<le> 0 \<or> collate b a \<le> 0"
  unfolding collate_def by (rule compare_units_total)

lemma collate_trans: "collate a b \<le> 0 \<Longrightarrow> collate b c \<le> 0 \<Longrightarrow> collate a c \<le> 0"
  unfolding collate_def by (rule compare_units_trans)

lemmas ex_defs = ex_deps_def ex_parse_def serialize_def tracking_def file_v_def collate_def
  sortKey_def isUpper_def unref_def Good_ewp_def Corrupt_ewp_def a_eww_def B_eww_def
  isBackupFile_def isBackupEng_def isBackupJpn_def

text \<open>
  C5. In the reconciliation of the project files, a file whose parse fails is reported,
  by \<open>logger.error\<close> and by \<open>showErrorMessage\<close>, and is left out of the list, and the
  files after it are still parsed: the list is made of the files that are not ignored
  and do parse, in the order of the comparator, and there is one pair of reports for
  each file that does not parse.
\<close>

theorem ewpSubscribe_isolates_parse_failures:
  "let considered = filter (\<lambda>file. \<not> isIgnoredFile d file) files;
       ps = fst (parse_each ProjectFile (parseEwp d) considered st []);
       sorted = array_sort (byName d) ps;
       changed = (stringify d sorted \<noteq> stringify d (fallbackProjects st))
   in map unref ps = successes (parseEwp d) considered
    \<and> mset sorted = mset ps
    \<and> fallbackProjects (ewpSubscribe d files st) = (if changed then sorted else fallbackProjects st)
    \<and> events (ewpSubscribe d files st) =
        events st @ reports ProjectFile (parseEwp d) considered
          @ (if changed then [LoggerDebug ProjectFile (length sorted), SetFallbackProjects sorted]
             else [])"
  using parse_each_spec [of ProjectFile "parseEwp d" "filter (\<lambda>file. \<not> isIgnoredFile d file) files" st "[]"]
  by (simp add: ewpSubscribe_eq Let_def mset_array_sort setFallbackProjects_def)

lemma not_ignored: "isBackupFile Good_ewp = False" "isBackupFile Corrupt_ewp = False"
  by (simp_all add: ex_defs eval_defs)

lemma parse_Good_Corrupt: "ex_parse (str ''.ewp'') [Corrupt_ewp] (\<lambda>file. []) Good_ewp = Inr (file_v 0 Good_ewp (str ''Good'') [])"
  "ex_parse (str ''.ewp'') [Corrupt_ewp] (\<lambda>file. []) Corrupt_ewp = Inl (ParseError (str ''malformed''))"
  by (simp_all add: ex_defs eval_defs path_defs)

lemma parse_each_Good_Corrupt: "parse_each ProjectFile (ex_parse (str ''.ewp'') [Corrupt_ewp] (\<lambda>file. [])) [Good_ewp, Corrupt_ewp] (tracking [] []) []
  = ([file_v 0 Good_ewp (str ''Good'') []], \<lparr>workspaces = [], selected = None, projects = [],
       fallbackProjects = [], next_ref = 1,
       events = [LoggerError ProjectFile Corrupt_ewp (ParseError (str ''malformed'')),
        ShowErrorMessage ProjectFile Corrupt_ewp (ParseError (str ''malformed''))]\<rparr>)"
  by (simp add: parse_Good_Corrupt construct_def tracking_def file_v_def)

theorem ewpSubscribe_isolates_parse_failures_witness:
  "fallbackProjects (ewpSubscribe (ex_deps [Corrupt_ewp] (\<lambda>file. [])) [Good_ewp, Corrupt_ewp] (tracking [] []))
     = [file_v 0 Good_ewp (str ''Good'') []]
   \<and> events (ewpSubscribe (ex_deps [Corrupt_ewp] (\<lambda>file. [])) [Good_ewp, Corrupt_ewp] (tracking [] []))
     = [LoggerError ProjectFile Corrupt_ewp (ParseError (str ''malformed'')),
        ShowErrorMessage ProjectFile Corrupt_ewp (ParseError (str ''malformed'')),
        LoggerDebug ProjectFile 1,
        SetFallbackProjects [file_v 0 Good_ewp (str ''Good'') []]]"
proof -
  let ?d = "ex_deps [Corrupt_ewp] (\<lambda>file. [])"
  have considered: "filter (\<lambda>file. \<not> isIgnoredFile ?d file) [Good_ewp, Corrupt_ewp] = [Good_ewp, Corrupt_ewp]"
    by (simp add: ex_deps_def not_ignored)
  have ps: "fst (parse_each ProjectFile (parseEwp ?d) [Good_ewp, Corrupt_ewp] (tracking [] []) [])
      = [file_v 0 Good_ewp (str ''Good'') []]"
    by (simp add: ex_deps_def parse_each_Good_Corrupt del: parse_each.simps)
  have changed: "stringify ?d [file_v 0 Good_ewp (str ''Good'') []] \<noteq> stringify ?d (fallbackProjects (tracking [] []))"
    by (simp add: ex_deps_def serialize_def tracking_def str_def)
  have rep: "reports ProjectFile (parseEwp ?d) [Good_ewp, Corrupt_ewp] =
      [LoggerError ProjectFile Corrupt_ewp (ParseError (str ''malformed'')),
       ShowErrorMessage ProjectFile Corrupt_ewp (ParseError (str ''malformed''))]"
    by (simp add: reports_def ex_deps_def parse_Good_Corrupt)
  have st: "array_sort (byName ?d) [file_v 0 Good_ewp (str ''Good'') []] = [file_v 0 Good_ewp (str ''Good'') []]"
    by (simp add: array_sort_def)
  from ewpSubscribe_isolates_parse_failures [of ?d "[Good_ewp, Corrupt_ewp]" "tracking [] []"]
  show ?thesis
    unfolding Let_def considered ps st rep using changed by (simp add: tracking_def)
qed

lemma ex_parse_ok:
  "file \<notin> set corrupt \<Longrightarrow>
   ex_parse ext corrupt c file = Inr (file_v 0 file (basename_ext file ext) (c file))"
  by (simp add: ex_parse_def file_v_def)

lemma ex_parse_fail:
  "file \<in> set corrupt \<Longrightarrow> ex_parse ext corrupt c file = Inl (ParseError (str ''malformed''))"
  by (simp add: ex_parse_def)

lemma ex_names:
  "basename_ext a_eww (str ''.eww'') = str ''a''"
  "basename_ext B_eww (str ''.eww'') = str ''B''"
  "basename_ext Good_ewp (str ''.ewp'') = str ''Good''"
  by (simp_all add: a_eww_def B_eww_def Good_ewp_def path_defs)

lemma ex_collate:
  "collate (str ''a'') (str ''B'') = - 1"
  "collate (str ''B'') (str ''a'') = 1"
  "compare_units (str ''a'') (str ''B'') = 1"
  by (simp_all add: collate_def sortKey_def isUpper_def str_def)

lemma fallbackProjects_parse_each:
  "fallbackProjects (snd (parse_each k parse files st acc)) = fallbackProjects st"
  using parse_each_spec [of k parse files st acc] by simp

subsection \<open>Order of the delivered list\<close>

text \<open>
  C7, as amended. In both subscribe reconciliations the list handed to the model is the
  list of parsed entities sorted by display name with the comparator
  \<open>String.prototype.localeCompare\<close>, the collation of the host, which is not the order of
  the code units. Whenever that comparator is a total preorder, the list is ordered by
  it, has the same entities as were parsed, and keeps entities of the same name in the
  order of their files; so the order is determined by the input and the comparator.
\<close>

theorem subscribe_sorted_by_localeCompare:
  assumes total: "\<forall>a b. localeCompare d a b \<le> 0 \<or> localeCompare d b a \<le> 0"
      and trans: "\<forall>a b c. localeCompare d a b \<le> 0 \<and> localeCompare d b c \<le> 0 \<longrightarrow> localeCompare d a c \<le> 0"
  shows "(let ws = fst (parse_each WorkspaceFile (parseEww d) files st []);
              delivered = workspaces (ewwSubscribe d files st)
          in sorted_wrt (\<lambda>a b. localeCompare d (name a) (name b) \<le> 0) delivered
           \<and> mset delivered = mset ws
           \<and> (\<forall>n. filter (\<lambda>e. name e = n) delivered = filter (\<lambda>e. name e = n) ws))
       \<and> (let ps = fst (parse_each ProjectFile (parseEwp d)
                         (filter (\<lambda>file. \<not> isIgnoredFile d file) files) st []);
               delivered = fallbackProjects (ewpSubscribe d files st)
           in delivered = fallbackProjects st
            \<or> (sorted_wrt (\<lambda>a b. localeCompare d (name a) (name b) \<le> 0) delivered
                \<and> mset delivered = mset ps
                \<and> (\<forall>n. filter (\<lambda>e. name e = n) delivered = filter (\<lambda>e. name e = n) ps)))"
proof -
  have t: "\<And>a b. byName d a b \<le> 0 \<or> byName d b a \<le> 0"
    using total by (simp add: byName_def)
  have tr: "\<And>a b c. byName d a b \<le> 0 \<Longrightarrow> byName d b c \<le> 0 \<Longrightarrow> byName d a c \<le> 0"
    using trans unfolding byName_def by blast
  have r: "\<And>a b. name a = name b \<Longrightarrow> byName d a b \<le> 0"
    using total unfolding byName_def by metis
  have sorted: "\<And>xs. sorted_wrt (\<lambda>a b. localeCompare d (name a) (name b) \<le> 0) (array_sort (byName d) xs)"
    using sorted_array_sort [of "byName d", OF t tr] by (simp add: byName_def)
  have stable: "\<And>xs n. filter (\<lambda>e. name e = n) (array_sort (byName d) xs) = filter (\<lambda>e. name e = n) xs"
    using stable_array_sort [of name "byName d", OF r] by simp
  show ?thesis
    by (simp add: Let_def workspaces_ewwSubscribe ewpSubscribe_eq setFallbackProjects_def
        sorted stable mset_array_sort fallbackProjects_parse_each)
qed

lemma eww_Ba:
  "parse_each WorkspaceFile (ex_parse (str ''.eww'') [] (\<lambda>file. [])) [B_eww, a_eww] (tracking [] []) []
   = ([file_v 0 B_eww (str ''B'') [], file_v (Suc 0) a_eww (str ''a'') []],
      (tracking [] [])\<lparr>next_ref := 2\<rparr>)"
  by (simp add: construct_def ex_parse_ok ex_names tracking_def file_v_def)

lemma sort_Ba:
  "array_sort (byName (ex_deps [] (\<lambda>file. []))) [file_v 0 B_eww (str ''B'') [], file_v (Suc 0) a_eww (str ''a'') []]
   = [file_v (Suc 0) a_eww (str ''a'') [], file_v 0 B_eww (str ''B'') []]"
  by (simp add: array_sort_def byName_def ex_deps_def file_v_def ex_collate)

lemma delivered_Ba:
  "workspaces (ewwSubscribe (ex_deps [] (\<lambda>file. [])) [B_eww, a_eww] (tracking [] []))
   = [file_v (Suc 0) a_eww (str ''a'') [], file_v 0 B_eww (str ''B'') []]"
proof -
  have "parseEww (ex_deps [] (\<lambda>file. [])) = ex_parse (str ''.eww'') [] (\<lambda>file. [])"
    by (simp add: ex_deps_def)
  then show ?thesis
    unfolding workspaces_ewwSubscribe by (simp add: eww_Ba sort_Ba del: parse_each.simps)
qed

theorem subscribe_sorted_by_localeCompare_witness:
  "workspaces (ewwSubscribe (ex_deps [] (\<lambda>file. [])) [B_eww, a_eww] (tracking [] []))
     = [file_v (Suc 0) a_eww (str ''a'') [], file_v 0 B_eww (str ''B'') []]
   \<and> sorted_wrt (\<lambda>a b. collate (name a) (name b) \<le> 0)
       (workspaces (ewwSubscribe (ex_deps [] (\<lambda>file. [])) [B_eww, a_eww] (tracking [] [])))"
proof -
  let ?d = "ex_deps [] (\<lambda>file. [])"
  have lc: "localeCompare ?d = collate"
    by (simp add: ex_deps_def)
  have total: "\<forall>a b. localeCompare ?d a b \<le> 0 \<or> localeCompare ?d b a \<le> 0"
    unfolding lc using collate_total by blast
  have trans: "\<forall>a b c. localeCompare ?d a b \<le> 0 \<and> localeCompare ?d b c \<le> 0 \<longrightarrow> localeCompare ?d a c \<le> 0"
    unfolding lc using collate_trans by blast
  from subscribe_sorted_by_localeCompare [OF total trans, of "[B_eww, a_eww]" "tracking [] []"]
  have "sorted_wrt (\<lambda>a b. collate (name a) (name b) \<le> 0)
       (workspaces (ewwSubscribe ?d [B_eww, a_eww] (tracking [] [])))"
    unfolding Let_def lc by blast
  with delivered_Ba show ?thesis by simp
qed

theorem subscribe_order_counterexample:
  "map name (workspaces (ewwSubscribe (ex_deps [] (\<lambda>file. [])) [B_eww, a_eww] (tracking [] [])))
     = [str ''a'', str ''B'']
   \<and> \<not> lexicographic_le (str ''a'') (str ''B'')
   \<and> \<not> sorted_wrt lexicographic_le
       (map name (workspaces (ewwSubscribe (ex_deps [] (\<lambda>file. [])) [B_eww, a_eww] (tracking [] []))))"
  by (simp add: delivered_Ba file_v_def lexicographic_le_def ex_collate)

subsection \<open>Repeated reconciliation\<close>

lemma serialize_ref: "serialize (map unref es) = serialize es"
  by (simp add: serialize_def unref_def comp_def)

lemma eww_once:
  "events (ewwSubscribe (ex_deps [] (\<lambda>file. [])) [a_eww] st) =
     events st @ [LoggerDebug WorkspaceFile 1, WorkspaceSet [file_v (next_ref st) a_eww (str ''a'') []]]
   \<and> next_ref (ewwSubscribe (ex_deps [] (\<lambda>file. [])) [a_eww] st) = Suc (next_ref st)
   \<and> workspaces (ewwSubscribe (ex_deps [] (\<lambda>file. [])) [a_eww] st) =
       [file_v (next_ref st) a_eww (str ''a'') []]"
  by (simp add: ewwSubscribe_def ex_deps_def construct_def ex_parse_ok ex_names array_sort_def
      workspaceSet_def file_v_def)

lemma ewp_once:
  "events (ewpSubscribe (ex_deps [] (\<lambda>file. [])) [Good_ewp] st) =
     events st @
       (if serialize [file_v 0 Good_ewp (str ''Good'') []] \<noteq> serialize (fallbackProjects st)
        then [LoggerDebug ProjectFile 1,
              SetFallbackProjects [file_v (next_ref st) Good_ewp (str ''Good'') []]]
        else [])
   \<and> fallbackProjects (ewpSubscribe (ex_deps [] (\<lambda>file. [])) [Good_ewp] st) =
       (if serialize [file_v 0 Good_ewp (str ''Good'') []] \<noteq> serialize (fallbackProjects st)
        then [file_v (next_ref st) Good_ewp (str ''Good'') []]
        else fallbackProjects st)"
proof -
  let ?d = "ex_deps [] (\<lambda>file. [])"
  have s: "serialize [file_v (next_ref st) Good_ewp (str ''Good'') []] =
      serialize [file_v 0 Good_ewp (str ''Good'') []]"
    by (simp add: serialize_def file_v_def)
  have pe: "parse_each ProjectFile (parseEwp ?d) (filter (\<lambda>file. \<not> isIgnoredFile ?d file) [Good_ewp]) st []
      = ([file_v (next_ref st) Good_ewp (str ''Good'') []], st\<lparr>next_ref := Suc (next_ref st)\<rparr>)"
    by (simp add: ex_deps_def not_ignored construct_def ex_parse_ok ex_names file_v_def)
  have st: "stringify ?d = serialize"
    by (simp add: ex_deps_def)
  show ?thesis
    unfolding ewpSubscribe_eq Let_def pe st
    by (simp add: array_sort_def setFallbackProjects_def s)
qed

text \<open>
  C2, on the code. The workspace handler calls \<open>set\<close> at every delivery: two deliveries
  of the same file set give two calls of \<open>set\<close>, with lists that serialize to the same
  text. The project handler compares the serialized lists and calls
  \<open>setFallbackProjects\<close> once.
\<close>

theorem ewwSubscribe_sets_every_time:
  "events (ewwSubscribe (ex_deps [] (\<lambda>file. [])) [a_eww]
             (ewwSubscribe (ex_deps [] (\<lambda>file. [])) [a_eww] (tracking [] [])))
     = [LoggerDebug WorkspaceFile 1, WorkspaceSet [file_v 0 a_eww (str ''a'') []],
        LoggerDebug WorkspaceFile 1, WorkspaceSet [file_v 1 a_eww (str ''a'') []]]
   \<and> stringify (ex_deps [] (\<lambda>file. [])) [file_v 0 a_eww (str ''a'') []]
     = stringify (ex_deps [] (\<lambda>file. [])) [file_v 1 a_eww (str ''a'') []]
   \<and> events (ewpSubscribe (ex_deps [] (\<lambda>file. [])) [Good_ewp]
               (ewpSubscribe (ex_deps [] (\<lambda>file. [])) [Good_ewp] (tracking [] [])))
     = [LoggerDebug ProjectFile 1, SetFallbackProjects [file_v 0 Good_ewp (str ''Good'') []]]"
proof -
  have 1: "serialize [file_v 0 Good_ewp (str ''Good'') []] \<noteq> serialize (fallbackProjects (tracking [] []))"
    by (simp add: serialize_def tracking_def str_def)
  have 2: "stringify (ex_deps [] (\<lambda>file. [])) [file_v 0 a_eww (str ''a'') []]
     = stringify (ex_deps [] (\<lambda>file. [])) [file_v 1 a_eww (str ''a'') []]"
    by (simp add: ex_deps_def serialize_def file_v_def)
  show ?thesis
    using 1 2 by (simp add: eww_once ewp_once) (simp add: tracking_def)
qed

subsection \<open>The onFileModified handlers\<close>

text \<open>
  C3, on the code. A tracked file that no longer parses: the constructor throws inside
  the handler, outside any \<open>try\<close>, so the promise of the handler is rejected with the
  parse error. The state is as before, the old entity still in the list, and nothing
  has been logged.
\<close>

theorem onFileModified_parse_error_escapes:
  "ewwOnFileModified (ex_deps [a_eww] (\<lambda>file. [])) a_eww (tracking [file_v 0 a_eww (str ''a'') []] [])
     = (Inl (ParseError (str ''malformed'')), tracking [file_v 0 a_eww (str ''a'') []] [])
   \<and> ewpOnFileModified (ex_deps [Good_ewp] (\<lambda>file. [])) Good_ewp
       (tracking [] [file_v 0 Good_ewp (str ''Good'') []])
     = (Inl (ParseError (str ''malformed'')), tracking [] [file_v 0 Good_ewp (str ''Good'') []])"
  by (simp add: ewwOnFileModified_def ewpOnFileModified_def ex_deps_def construct_def ex_parse_fail
      tracking_def file_v_def)

lemma length_replaced: "length (replaced old new xs) = length xs"
  by (simp add: replaced_def)

lemma replaced_nth:
  "i < length xs \<Longrightarrow>
   replaced old new xs ! i = (if same_object (xs ! i) old then new else xs ! i)"
  by (simp add: replaced_def)

lemma replaced_update:
  assumes d: "distinct (map ref xs)" and i: "i < length xs" and o: "xs ! i = old"
  shows "replaced old new xs = xs[i := new]"
proof (rule nth_equalityI)
  show "length (replaced old new xs) = length (xs[i := new])"
    by (simp add: length_replaced)
next
  fix j
  assume "j < length (replaced old new xs)"
  then have j: "j < length xs"
    by (simp add: length_replaced)
  have "(ref (xs ! j) = ref (xs ! i)) = (j = i)"
    using nth_eq_iff_index_eq [of "map ref xs" j i] d i j by simp
  then show "replaced old new xs ! j = xs[i := new] ! j"
    using i j o by (auto simp: replaced_nth same_object_def)
qed

lemma find_position:
  "find P xs = Some x \<Longrightarrow> \<exists>i<length xs. xs ! i = x \<and> P x \<and> (\<forall>j<i. \<not> P (xs ! j))"
  by (auto simp: find_Some_iff)

lemma eww_untracked:
  "find (\<lambda>ws. pathsEqual d (path ws) file) (workspaces st) = None \<Longrightarrow>
   ewwOnFileModified d file st = (Inr (), st)"
  by (simp add: ewwOnFileModified_def)

lemma ewp_untracked:
  "find (\<lambda>p. pathsEqual d (path p) file) (projects st) = None \<Longrightarrow>
   ewpOnFileModified d file st = (Inr (), st)"
  by (simp add: ewpOnFileModified_def)

lemma eww_replace:
  assumes "find (\<lambda>ws. pathsEqual d (path ws) file) (workspaces st) = Some old"
      and "construct (parseEww d) (next_ref st) file = Inr new"
      and "workspaceEqual d old new = Inr False"
  shows "ewwOnFileModified d file st =
     (Inr (), workspaceSet (replaced old new (workspaces st)) (st\<lparr>next_ref := Suc (next_ref st)\<rparr>))"
  using assms by (simp add: ewwOnFileModified_def Let_def)

lemma ewp_replace:
  assumes "find (\<lambda>p. pathsEqual d (path p) file) (projects st) = Some old"
      and "reloadProject d old st = (Inr (), st1)"
      and "construct (parseEwp d) (next_ref st1) file = Inr new"
      and "\<not> projectEqual d old new"
  shows "ewpOnFileModified d file st =
     (Inr (), projectSet (replaced old new (projects st1)) (st1\<lparr>next_ref := Suc (next_ref st1)\<rparr>))"
  using assms by (simp add: ewpOnFileModified_def Let_def)

lemma in_place:
  assumes "find P xs = Some old"
  shows "\<exists>i<length xs. xs ! i = old
      \<and> length (replaced old new xs) = length xs
      \<and> replaced old new xs ! i = new
      \<and> (\<forall>j<length xs. \<not> same_object (xs ! j) old \<longrightarrow> replaced old new xs ! j = xs ! j)
      \<and> (distinct (map ref xs) \<longrightarrow> replaced old new xs = xs[i := new])"
proof -
  from find_position [OF assms] obtain i where i: "i < length xs" "xs ! i = old"
    by blast
  then have "replaced old new xs ! i = new"
    by (simp add: replaced_nth same_object_def)
  with i show ?thesis
    by (auto simp: length_replaced replaced_nth replaced_update)
qed

text \<open>
  C8. An \<open>onFileModified\<close> event for a path that no tracked entity has leaves the state as
  it is. When a tracked entity has the path, the file parses and the new entity is not
  equal to the old one, \<open>set\<close> is called once, with a list of the same length in which
  the new entity stands where the old one stood and every entry that is not the old
  object is the object that was there; when the objects of the list are pairwise
  different, the list is the tracked list with that one position updated. The project
  handler reads the list after the awaited \<open>reloadProject\<close>, which is taken to succeed
  and to leave the list of the project model alone.
\<close>

theorem onFileModified_replaces_in_place:
  "(find (\<lambda>ws. pathsEqual d (path ws) file) (workspaces st) = None \<longrightarrow>
      ewwOnFileModified d file st = (Inr (), st))
   \<and> (find (\<lambda>p. pathsEqual d (path p) file) (projects st) = None \<longrightarrow>
      ewpOnFileModified d file st = (Inr (), st))
   \<and> (find (\<lambda>ws. pathsEqual d (path ws) file) (workspaces st) = Some old
        \<and> construct (parseEww d) (next_ref st) file = Inr new
        \<and> workspaceEqual d old new = Inr False \<longrightarrow>
      (\<exists>i<length (workspaces st). \<exists>updated st'.
          workspaces st ! i = old
        \<and> ewwOnFileModified d file st = (Inr (), st')
        \<and> workspaces st' = updated
        \<and> events st' = events st @ [WorkspaceSet updated]
        \<and> length updated = length (workspaces st)
        \<and> updated ! i = new
        \<and> (\<forall>j<length (workspaces st).
              \<not> same_object (workspaces st ! j) old \<longrightarrow> updated ! j = workspaces st ! j)
        \<and> (distinct (map ref (workspaces st)) \<longrightarrow> updated = (workspaces st)[i := new])))
   \<and> (find (\<lambda>p. pathsEqual d (path p) file) (projects st) = Some old
        \<and> reloadProject d old st = (Inr (), st1) \<and> projects st1 = projects st
        \<and> construct (parseEwp d) (next_ref st1) file = Inr new
        \<and> \<not> projectEqual d old new \<longrightarrow>
      (\<exists>i<length (projects st). \<exists>updated st'.
          projects st ! i = old
        \<and> ewpOnFileModified d file st = (Inr (), st')
        \<and> projects st' = updated
        \<and> events st' = events st1 @ [ProjectSet updated]
        \<and> length updated = length (projects st)
        \<and> updated ! i = new
        \<and> (\<forall>j<length (projects st).
              \<not> same_object (projects st ! j) old \<longrightarrow> updated ! j = projects st ! j)
        \<and> (distinct (map ref (projects st)) \<longrightarrow> updated = (projects st)[i := new])))"
proof (intro conjI impI)
  assume "find (\<lambda>ws. pathsEqual d (path ws) file) (workspaces st) = None"
  then show "ewwOnFileModified d file st = (Inr (), st)"
    by (rule eww_untracked)
next
  assume "find (\<lambda>p. pathsEqual d (path p) file) (projects st) = None"
  then show "ewpOnFileModified d file st = (Inr (), st)"
    by (rule ewp_untracked)
next
  assume a: "find (\<lambda>ws. pathsEqual d (path ws) file) (workspaces st) = Some old
        \<and> construct (parseEww d) (next_ref st) file = Inr new
        \<and> workspaceEqual d old new = Inr False"
  then have run: "ewwOnFileModified d file st =
     (Inr (), workspaceSet (replaced old new (workspaces st)) (st\<lparr>next_ref := Suc (next_ref st)\<rparr>))"
    by (simp add: eww_replace)
  from a in_place [of "\<lambda>ws. pathsEqual d (path ws) file" "workspaces st" old new]
  obtain i where i: "i < length (workspaces st)" "workspaces st ! i = old"
      "length (replaced old new (workspaces st)) = length (workspaces st)"
      "replaced old new (workspaces st) ! i = new"
      "\<forall>j<length (workspaces st). \<not> same_object (workspaces st ! j) old \<longrightarrow>
          replaced old new (workspaces st) ! j = workspaces st ! j"
      "distinct (map ref (workspaces st)) \<longrightarrow> replaced old new (workspaces st) = (workspaces st)[i := new]"
    by blast
  show "\<exists>i<length (workspaces st). \<exists>updated st'.
          workspaces st ! i = old
        \<and> ewwOnFileModified d file st = (Inr (), st')
        \<and> workspaces st' = updated
        \<and> events st' = events st @ [WorkspaceSet updated]
        \<and> length updated = length (workspaces st)
        \<and> updated ! i = new
        \<and> (\<forall>j<length (workspaces st).
              \<not> same_object (workspaces st ! j) old \<longrightarrow> updated ! j = workspaces st ! j)
        \<and> (distinct (map ref (workspaces st)) \<longrightarrow> updated = (workspaces st)[i := new])"
    apply (rule exI [of _ i])
    apply (rule conjI [OF i(1)])
    apply (rule exI [of _ "replaced old new (workspaces st)"])
    apply (rule exI [of _ "workspaceSet (replaced old new (workspaces st)) (st\<lparr>next_ref := Suc (next_ref st)\<rparr>)"])
    using i run by (simp add: workspaceSet_def)
next
  assume a: "find (\<lambda>p. pathsEqual d (path p) file) (projects st) = Some old
        \<and> reloadProject d old st = (Inr (), st1) \<and> projects st1 = projects st
        \<and> construct (parseEwp d) (next_ref st1) file = Inr new
        \<and> \<not> projectEqual d old new"
  then have run: "ewpOnFileModified d file st =
     (Inr (), projectSet (replaced old new (projects st)) (st1\<lparr>next_ref := Suc (next_ref st1)\<rparr>))"
    using ewp_replace [of d "file" st old st1 new] by simp
  from a in_place [of "\<lambda>p. pathsEqual d (path p) file" "projects st" old new]
  obtain i where i: "i < length (projects st)" "projects st ! i = old"
      "length (replaced old new (projects st)) = length (projects st)"
      "replaced old new (projects st) ! i = new"
      "\<forall>j<length (projects st). \<not> same_object (projects st ! j) old \<longrightarrow>
          replaced old new (projects st) ! j = projects st ! j"
      "distinct (map ref (projects st)) \<longrightarrow> replaced old new (projects st) = (projects st)[i := new]"
    by blast
  show "\<exists>i<length (projects st). \<exists>updated st'.
          projects st ! i = old
        \<and> ewpOnFileModified d file st = (Inr (), st')
        \<and> projects st' = updated
        \<and> events st' = events st1 @ [ProjectSet updated]
        \<and> length updated = length (projects st)
        \<and> updated ! i = new
        \<and> (\<forall>j<length (projects st).
              \<not> same_object (projects st ! j) old \<longrightarrow> updated ! j = projects st ! j)
        \<and> (distinct (map ref (projects st)) \<longrightarrow> updated = (projects st)[i := new])"
    apply (rule exI [of _ i])
    apply (rule conjI [OF i(1)])
    apply (rule exI [of _ "replaced old new (projects st)"])
    apply (rule exI [of _ "projectSet (replaced old new (projects st)) (st1\<lparr>next_ref := Suc (next_ref st1)\<rparr>)"])
    using i run by (simp add: projectSet_def)
qed

lemma ex_paths:
  "a_eww \<noteq> B_eww" "B_eww \<noteq> a_eww" "Corrupt_ewp \<noteq> a_eww" "Corrupt_ewp \<noteq> B_eww"
  "a_eww \<noteq> Corrupt_ewp" "B_eww \<noteq> Corrupt_ewp"
  "Corrupt_ewp \<noteq> Good_ewp" "Good_ewp \<noteq> Corrupt_ewp"
  by (simp_all add: a_eww_def B_eww_def Corrupt_ewp_def Good_ewp_def str_def)

theorem onFileModified_replaces_in_place_witness:
  "ewwOnFileModified (ex_deps [] (\<lambda>file. str ''v2'')) Corrupt_ewp ex_tracked = (Inr (), ex_tracked)
   \<and> ewpOnFileModified (ex_deps [] (\<lambda>file. str ''v2'')) Corrupt_ewp ex_tracked = (Inr (), ex_tracked)
   \<and> workspaces (snd (ewwOnFileModified (ex_deps [] (\<lambda>file. str ''v2'')) B_eww ex_tracked))
       = [file_v 0 a_eww (str ''a'') (str ''v1''), file_v 3 B_eww (str ''B'') (str ''v2'')]
   \<and> projects (snd (ewpOnFileModified (ex_deps [] (\<lambda>file. str ''v2'')) Good_ewp ex_tracked))
       = [file_v 3 Good_ewp (str ''Good'') (str ''v2'')]"
proof -
  let ?d = "ex_deps [] (\<lambda>file. str ''v2'')"
  let ?A = "file_v 0 a_eww (str ''a'') (str ''v1'')"
  let ?B = "file_v 1 B_eww (str ''B'') (str ''v1'')"
  let ?B' = "file_v 3 B_eww (str ''B'') (str ''v2'')"
  let ?G = "file_v 2 Good_ewp (str ''Good'') (str ''v1'')"
  let ?G' = "file_v 3 Good_ewp (str ''Good'') (str ''v2'')"
  have ws: "workspaces ex_tracked = [?A, ?B]" and ps: "projects ex_tracked = [?G]"
    and nr: "next_ref ex_tracked = 3"
    by (simp_all add: ex_tracked_def tracking_def)
  have v: "str ''v1'' \<noteq> str ''v2''"
    by (simp add: str_def)
  have none_ws: "find (\<lambda>ws. pathsEqual ?d (path ws) Corrupt_ewp) (workspaces ex_tracked) = None"
    and none_ps: "find (\<lambda>p. pathsEqual ?d (path p) Corrupt_ewp) (projects ex_tracked) = None"
    unfolding ws ps by (simp_all add: ex_deps_def file_v_def ex_paths)
  have old_ws: "find (\<lambda>ws. pathsEqual ?d (path ws) B_eww) (workspaces ex_tracked) = Some ?B"
    and old_ps: "find (\<lambda>p. pathsEqual ?d (path p) Good_ewp) (projects ex_tracked) = Some ?G"
    unfolding ws ps by (simp_all add: ex_deps_def file_v_def ex_paths)
  have new_ws: "construct (parseEww ?d) (next_ref ex_tracked) B_eww = Inr ?B'"
    and new_ps: "construct (parseEwp ?d) (next_ref ex_tracked) Good_ewp = Inr ?G'"
    unfolding nr by (simp_all add: ex_deps_def construct_def ex_parse_ok ex_names file_v_def)
  have differ: "workspaceEqual ?d ?B ?B' = Inr False" "\<not> projectEqual ?d ?G ?G'"
    using v by (simp_all add: ex_deps_def unref_def file_v_def)
  have reload: "reloadProject ?d ?G ex_tracked = (Inr (), ex_tracked)"
    by (simp add: ex_deps_def)
  have dist: "distinct (map ref (workspaces ex_tracked))" "distinct (map ref (projects ex_tracked))"
    unfolding ws ps by (simp_all add: file_v_def)
  note main = onFileModified_replaces_in_place [of ?d _ ex_tracked]
  from main [of Corrupt_ewp] none_ws
  have 1: "ewwOnFileModified ?d Corrupt_ewp ex_tracked = (Inr (), ex_tracked)"
    by blast
  from main [of Corrupt_ewp] none_ps
  have 2: "ewpOnFileModified ?d Corrupt_ewp ex_tracked = (Inr (), ex_tracked)"
    by blast
  from main [of B_eww ?B ?B' ex_tracked] old_ws new_ws differ(1)
  obtain i updated st' where i: "i < length (workspaces ex_tracked)"
    "workspaces ex_tracked ! i = ?B"
    "ewwOnFileModified ?d B_eww ex_tracked = (Inr (), st')"
    "workspaces st' = updated"
    "distinct (map ref (workspaces ex_tracked)) \<longrightarrow> updated = (workspaces ex_tracked)[i := ?B']"
    by blast
  from i(1,2) have "i = 1"
    unfolding ws by (cases i) (simp_all add: file_v_def ex_paths)
  with i(3,4,5) dist(1) have 3: "workspaces (snd (ewwOnFileModified ?d B_eww ex_tracked)) = [?A, ?B']"
    unfolding ws by simp
  from main [of Good_ewp ?G ?G' ex_tracked] old_ps new_ps differ(2) reload
  obtain j updated2 st2 where j: "j < length (projects ex_tracked)"
    "ewpOnFileModified ?d Good_ewp ex_tracked = (Inr (), st2)"
    "projects st2 = updated2"
    "distinct (map ref (projects ex_tracked)) \<longrightarrow> updated2 = (projects ex_tracked)[j := ?G']"
    by blast
  with dist(2) have 4: "projects (snd (ewpOnFileModified ?d Good_ewp ex_tracked)) = [?G']"
    unfolding ps by simp
  from 1 2 3 4 show ?thesis
    by simp
qed

end
